theory Spec2Isabelle
  imports Main "HOL-Library.Word" "HOL-Library.Multiset"
begin

unbundle bit_operations_syntax


section \<open>Package network: addresses and their 32-bit form\<close>

text \<open>
  Go's \<^verbatim>\<open>net.IP\<close> is a byte slice: four bytes for an IPv4 address, sixteen for an
  IPv6 address or for an IPv4 address in its IPv4-in-IPv6 form (ten zero bytes, two
  bytes \<^verbatim>\<open>0xff\<close>, then the four octets). It is modelled as a list of 8-bit words; the
  \<^verbatim>\<open>nil\<close> slice is the empty list. A Go \<^verbatim>\<open>uint32\<close> is a 32-bit word, whose
  \<open>+\<close> wraps around as Go's does.
\<close>

type_synonym byte = "8 word"
type_synonym uint32 = "32 word"
type_synonym IP = "byte list"
type_synonym IPMask = "byte list"

text \<open>The standard library's \<^verbatim>\<open>net.IPv4\<close>, \<^verbatim>\<open>IP.To4\<close> and \<^verbatim>\<open>IP.Equal\<close>.\<close>

definition v4InV6Prefix :: "byte list" where
  "v4InV6Prefix = [0, 0, 0, 0, 0, 0, 0, 0, 0, 0, 0xff, 0xff]"

definition IPv4 :: "byte \<Rightarrow> byte \<Rightarrow> byte \<Rightarrow> byte \<Rightarrow> IP" where
  "IPv4 a b c d = v4InV6Prefix @ [a, b, c, d]"

definition isZeros :: "byte list \<Rightarrow> bool" where
  "isZeros p = list_all (\<lambda>b. b = 0) p"

text \<open>\<^verbatim>\<open>To4\<close> answers \<^verbatim>\<open>nil\<close> (here \<open>None\<close>) for an address that is not IPv4.\<close>

definition To4 :: "IP \<Rightarrow> IP option" where
  "To4 ip =
     (if length ip = 4 then Some ip
      else if length ip = 16 \<and> isZeros (take 10 ip) \<and> ip ! 10 = 0xff \<and> ip ! 11 = 0xff
        then Some (drop 12 ip)
      else None)"

definition Equal_IP :: "IP \<Rightarrow> IP \<Rightarrow> bool" where
  "Equal_IP ip x =
     (if length ip = length x then ip = x
      else if length ip = 4 \<and> length x = 16 then take 12 x = v4InV6Prefix \<and> ip = drop 12 x
      else if length ip = 16 \<and> length x = 4 then take 12 ip = v4InV6Prefix \<and> drop 12 ip = x
      else False)"

text \<open>
  \<^verbatim>\<open>ipToUint32\<close> indexes the result of \<^verbatim>\<open>To4\<close>; on an address that is not IPv4
  that is an index into \<^verbatim>\<open>nil\<close>, a run-time panic, here \<open>None\<close>.
\<close>

definition ipToUint32 :: "IP \<Rightarrow> uint32 option" where
  "ipToUint32 ip =
     (case To4 ip of
        None \<Rightarrow> None
      | Some ip4 \<Rightarrow>
          Some (push_bit 24 (ucast (ip4 ! 0)) + push_bit 16 (ucast (ip4 ! 1))
                + push_bit 8 (ucast (ip4 ! 2)) + ucast (ip4 ! 3)))"

definition uint32ToIP :: "uint32 \<Rightarrow> IP" where
  "uint32ToIP n =
     IPv4 (ucast (drop_bit 24 n)) (ucast (drop_bit 16 n)) (ucast (drop_bit 8 n)) (ucast n)"

record IPRange =
  StartIP :: IP
  EndIP :: IP

subsection \<open>GenerateIPs\<close>

text \<open>
  The loop \<^verbatim>\<open>for i := start; i <= end; i++ { ips = append(ips, uint32ToIP(i)) }\<close>
  runs on \<^verbatim>\<open>uint32\<close>: \<^verbatim>\<open>i++\<close> wraps from \<open>2^32 - 1\<close> to \<open>0\<close>. Nothing bounds
  the number of iterations, so the loop is a partial function: \<open>None\<close> is a loop that
  does not return.
\<close>

partial_function (option) GenerateIPs_loop :: "uint32 \<Rightarrow> uint32 \<Rightarrow> IP list \<Rightarrow> IP list option" where
  "GenerateIPs_loop i end_v ips =
     (if i \<le> end_v then GenerateIPs_loop (i + 1) end_v (ips @ [uint32ToIP i]) else Some ips)"

declare GenerateIPs_loop.simps [code]

text \<open>
  The capacity handed to \<^verbatim>\<open>make\<close>: \<^verbatim>\<open>int(end - start + 1)\<close>, the subtraction and the
  addition in \<^verbatim>\<open>uint32\<close>, the conversion to a 64-bit \<^verbatim>\<open>int\<close> (so never negative).
  It sizes the allocation only; the slice starts empty whatever it is.
\<close>

definition GenerateIPs_capacity :: "uint32 \<Rightarrow> uint32 \<Rightarrow> int" where
  "GenerateIPs_capacity start end_v = uint (end_v - start + 1)"

text \<open>
  \<^verbatim>\<open>GenerateIPs\<close> returns \<^verbatim>\<open>nil\<close> (the empty list) when an endpoint is not IPv4. The
  result is \<open>None\<close> when the call does not return a slice.
\<close>

definition GenerateIPs :: "IPRange \<Rightarrow> IP list option" where
  "GenerateIPs r =
     (case (To4 (StartIP r), To4 (EndIP r)) of
        (Some startIP, Some endIP) \<Rightarrow>
          (case (ipToUint32 startIP, ipToUint32 endIP) of
             (Some start, Some end_v) \<Rightarrow> GenerateIPs_loop start end_v []
           | _ \<Rightarrow> None)
      | _ \<Rightarrow> Some [])"


section \<open>Strings\<close>

text \<open>
  A Go string is a sequence of bytes; \<open>string\<close> is a list of 8-bit characters. The
  functions of package \<^verbatim>\<open>strings\<close> that the program calls follow, on bytes.
\<close>

definition byteOf :: "char \<Rightarrow> nat" where
  "byteOf c = of_char c"

definition isDigit :: "char \<Rightarrow> bool" where
  "isDigit c = (byteOf CHR ''0'' \<le> byteOf c \<and> byteOf c \<le> byteOf CHR ''9'')"

definition digitVal :: "char \<Rightarrow> nat" where
  "digitVal c = byteOf c - byteOf CHR ''0''"

fun HasPrefix :: "string \<Rightarrow> string \<Rightarrow> bool" where
  "HasPrefix s [] = True"
| "HasPrefix [] (p # ps) = False"
| "HasPrefix (c # cs) (p # ps) = (c = p \<and> HasPrefix cs ps)"

fun Contains :: "string \<Rightarrow> string \<Rightarrow> bool" where
  "Contains [] substr = (substr = [])"
| "Contains (c # cs) substr = (HasPrefix (c # cs) substr \<or> Contains cs substr)"

text \<open>\<^verbatim>\<open>strings.Split(s, sep)\<close> for a separator of one byte: one more part than separators.\<close>

fun Split :: "string \<Rightarrow> char \<Rightarrow> string list" where
  "Split [] sep = [[]]"
| "Split (c # cs) sep =
     (if c = sep then [] # Split cs sep
      else (case Split cs sep of
              [] \<Rightarrow> [[c]]
            | p # ps \<Rightarrow> (c # p) # ps))"

text \<open>\<^verbatim>\<open>strings.Cut(s, sep)\<close> for a separator of one byte: around its first occurrence.\<close>

fun Cut :: "string \<Rightarrow> char \<Rightarrow> string \<times> string \<times> bool" where
  "Cut [] sep = ([], [], False)"
| "Cut (c # cs) sep =
     (if c = sep then ([], cs, True)
      else (case Cut cs sep of (before, after, found) \<Rightarrow>
              if found then (c # before, after, True) else (c # cs, [], False)))"

definition Count :: "string \<Rightarrow> char \<Rightarrow> nat" where
  "Count s c = count_list s c"

text \<open>\<^verbatim>\<open>strings.ReplaceAll(s, old, new)\<close> for an \<^verbatim>\<open>old\<close> of one byte.\<close>

definition ReplaceAll :: "string \<Rightarrow> char \<Rightarrow> string \<Rightarrow> string" where
  "ReplaceAll s old new = concat (map (\<lambda>c. if c = old then new else [c]) s)"

text \<open>
  \<^verbatim>\<open>strings.ToUpper\<close> on the ASCII letters. (Go maps every rune of the string; the
  program reads the result only where the input is the text of a hardware address.)
\<close>

definition upperByte :: "char \<Rightarrow> char" where
  "upperByte c =
     (if byteOf CHR ''a'' \<le> byteOf c \<and> byteOf c \<le> byteOf CHR ''z''
      then char_of (byteOf c - 32) else c)"

definition ToUpper :: "string \<Rightarrow> string" where
  "ToUpper s = map upperByte s"

definition TrimSuffix :: "string \<Rightarrow> string \<Rightarrow> string" where
  "TrimSuffix s suffix =
     (if HasPrefix (rev s) (rev suffix) then take (length s - length suffix) s else s)"

text \<open>
  White space as \<^verbatim>\<open>unicode.IsSpace\<close> has it, in UTF-8: the six ASCII characters
  tab, line feed, vertical tab, form feed, carriage return and space, then U+0085,
  U+00A0, U+1680, U+2000 to U+200A, U+2028, U+2029, U+202F, U+205F and U+3000.
\<close>

definition spaceTokens :: "string list" where
  "spaceTokens =
     [[CHR 0x09], [CHR 0x0A], [CHR 0x0B], [CHR 0x0C], [CHR 0x0D], [CHR 0x20],
      [CHR 0xC2, CHR 0x85], [CHR 0xC2, CHR 0xA0], [CHR 0xE1, CHR 0x9A, CHR 0x80],
      [CHR 0xE2, CHR 0x80, CHR 0x80], [CHR 0xE2, CHR 0x80, CHR 0x81],
      [CHR 0xE2, CHR 0x80, CHR 0x82], [CHR 0xE2, CHR 0x80, CHR 0x83],
      [CHR 0xE2, CHR 0x80, CHR 0x84], [CHR 0xE2, CHR 0x80, CHR 0x85],
      [CHR 0xE2, CHR 0x80, CHR 0x86], [CHR 0xE2, CHR 0x80, CHR 0x87],
      [CHR 0xE2, CHR 0x80, CHR 0x88], [CHR 0xE2, CHR 0x80, CHR 0x89],
      [CHR 0xE2, CHR 0x80, CHR 0x8A], [CHR 0xE2, CHR 0x80, CHR 0xA8],
      [CHR 0xE2, CHR 0x80, CHR 0xA9], [CHR 0xE2, CHR 0x80, CHR 0xAF],
      [CHR 0xE2, CHR 0x81, CHR 0x9F], [CHR 0xE3, CHR 0x80, CHR 0x80]]"

text \<open>The length of the white-space character at the head of the text (0 when there is none).\<close>

definition spaceLen :: "string list \<Rightarrow> string \<Rightarrow> nat" where
  "spaceLen tokens s =
     (case find (\<lambda>t. HasPrefix s t) tokens of None \<Rightarrow> 0 | Some t \<Rightarrow> length t)"

function trimLeftSpace :: "string list \<Rightarrow> string \<Rightarrow> string" where
  "trimLeftSpace tokens s =
     (if s = [] \<or> spaceLen tokens s = 0 then s
      else trimLeftSpace tokens (drop (spaceLen tokens s) s))"
  by pat_completeness auto
termination
  by (relation "measure (\<lambda>(tokens, s). length s)") auto

text \<open>
  \<^verbatim>\<open>strings.TrimSpace\<close>: white space off the left end, then off the right end (where
  Go decodes the last character of the text, the same bytes read backwards).
\<close>

definition TrimSpace :: "string \<Rightarrow> string" where
  "TrimSpace s =
     rev (trimLeftSpace (map rev spaceTokens) (rev (trimLeftSpace spaceTokens s)))"

text \<open>\<^verbatim>\<open>strings.Fields\<close>: the maximal runs of characters that are not white space.\<close>

function Fields_loop :: "string \<Rightarrow> string \<Rightarrow> string list" where
  "Fields_loop s cur =
     (if s = [] then (if cur = [] then [] else [cur])
      else if spaceLen spaceTokens s = 0 then Fields_loop (tl s) (cur @ [hd s])
      else (if cur = [] then [] else [cur]) @ Fields_loop (drop (spaceLen spaceTokens s) s) [])"
  by pat_completeness auto
termination
  by (relation "measure (\<lambda>(s, cur). length s)") auto

definition Fields :: "string \<Rightarrow> string list" where
  "Fields s = Fields_loop s []"


section \<open>The standard library's address parsers\<close>

text \<open>
  \<^verbatim>\<open>net.ParseIP\<close> and \<^verbatim>\<open>net.ParseCIDR\<close> belong to Go's standard library (the program
  asks for Go 1.21 or later); they are modelled after package \<^verbatim>\<open>net/netip\<close>, whose
  \<^verbatim>\<open>ParseAddr\<close> both of them call. A parse error is \<open>None\<close>.
\<close>

subsection \<open>Dot-decimal IPv4\<close>

text \<open>
  \<^verbatim>\<open>parseIPv4Fields\<close>: one pass over the text with the value and the number of digits
  of the current octet, and the number of octets stored. An octet has no leading zero
  and is at most 255; a dot stands neither first nor last nor after a dot; there are
  exactly four octets. The arguments \<open>i\<close> and \<open>prev\<close> are the index of the current
  character and the character before it.
\<close>

fun parseIPv4Fields_loop ::
  "string \<Rightarrow> nat \<Rightarrow> char \<Rightarrow> int \<Rightarrow> nat \<Rightarrow> nat \<Rightarrow> byte list \<Rightarrow> byte list option" where
  "parseIPv4Fields_loop [] i prev val pos digLen octets =
     (if pos < 3 then None else Some (octets[3 := of_int val]))"
| "parseIPv4Fields_loop (c # cs) i prev val pos digLen octets =
     (if isDigit c then
        (if digLen = 1 \<and> val = 0 then None
         else if val * 10 + int (digitVal c) > 255 then None
         else parseIPv4Fields_loop cs (i + 1) c (val * 10 + int (digitVal c)) pos (digLen + 1) octets)
      else if c = CHR ''.'' then
        (if i = 0 \<or> cs = [] \<or> prev = CHR ''.'' then None
         else if pos = 3 then None
         else parseIPv4Fields_loop cs (i + 1) c 0 (pos + 1) 0 (octets[pos := of_int val]))
      else None)"

definition parseIPv4Fields :: "string \<Rightarrow> byte list option" where
  "parseIPv4Fields s = parseIPv4Fields_loop s 0 (CHR 0x00) 0 0 0 [0, 0, 0, 0]"

subsection \<open>IPv6\<close>

definition hexVal :: "char \<Rightarrow> nat option" where
  "hexVal c =
     (if isDigit c then Some (digitVal c)
      else if byteOf CHR ''a'' \<le> byteOf c \<and> byteOf c \<le> byteOf CHR ''f''
        then Some (byteOf c - byteOf CHR ''a'' + 10)
      else if byteOf CHR ''A'' \<le> byteOf c \<and> byteOf c \<le> byteOf CHR ''F''
        then Some (byteOf c - byteOf CHR ''A'' + 10)
      else None)"

text \<open>
  The hexadecimal digits at the head of the text: how many (\<open>off\<close>) and their value
  (\<open>acc\<close>, a \<^verbatim>\<open>uint32\<close>); an error at a fifth digit or at a value above \<open>0xFFFF\<close>.
\<close>

fun hexGroup :: "string \<Rightarrow> nat \<Rightarrow> uint32 \<Rightarrow> (nat \<times> uint32) option" where
  "hexGroup [] off acc = Some (off, acc)"
| "hexGroup (c # cs) off acc =
     (case hexVal c of
        None \<Rightarrow> Some (off, acc)
      | Some v \<Rightarrow>
          if off > 3 then None
          else if push_bit 4 acc + of_nat v > 0xFFFF then None
          else hexGroup cs (off + 1) (push_bit 4 acc + of_nat v))"

text \<open>
  The loop of \<^verbatim>\<open>parseIPv6\<close> over the groups, \<open>i\<close> the number of bytes stored and
  \<open>ellipsis\<close> the position of \<^verbatim>\<open>::\<close> when it was seen. It ends with the rest of the
  text, \<open>i\<close>, the bytes and \<open>ellipsis\<close>.
\<close>

function parseIPv6_loop ::
  "string \<Rightarrow> nat \<Rightarrow> byte list \<Rightarrow> nat option \<Rightarrow> (string \<times> nat \<times> byte list \<times> nat option) option" where
  "parseIPv6_loop s i ip ellipsis =
     (if \<not> i < 16 then Some (s, i, ip, ellipsis)
      else case hexGroup s 0 0 of
        None \<Rightarrow> None
      | Some (off, acc) \<Rightarrow>
          if off = 0 then None
          else if off < length s \<and> s ! off = CHR ''.'' then
            (if ellipsis = None \<and> i \<noteq> 12 then None
             else if i + 4 > 16 then None
             else case parseIPv4Fields s of
               None \<Rightarrow> None
             | Some f \<Rightarrow> Some ([], i + 4, take i ip @ f @ drop (i + 4) ip, ellipsis))
          else if drop off s = [] then
            Some ([], i + 2, ip[i := ucast (drop_bit 8 acc), i + 1 := ucast acc], ellipsis)
          else if hd (drop off s) \<noteq> CHR '':'' then None
          else if length (drop off s) = 1 then None
          else if hd (tl (drop off s)) = CHR '':'' then
            (if ellipsis \<noteq> None then None
             else if tl (tl (drop off s)) = [] then
               Some ([], i + 2, ip[i := ucast (drop_bit 8 acc), i + 1 := ucast acc], Some (i + 2))
             else parseIPv6_loop (tl (tl (drop off s))) (i + 2)
                    (ip[i := ucast (drop_bit 8 acc), i + 1 := ucast acc]) (Some (i + 2)))
          else parseIPv6_loop (tl (drop off s)) (i + 2)
                 (ip[i := ucast (drop_bit 8 acc), i + 1 := ucast acc]) ellipsis)"
  by pat_completeness auto
termination
  by (relation "measure (\<lambda>(s, i, ip, ellipsis). 16 - i)") auto

text \<open>
  \<^verbatim>\<open>parseIPv6\<close>: the zone after \<^verbatim>\<open>%\<close> is split off first (an empty zone is an
  error), a leading \<^verbatim>\<open>::\<close> is read, the groups are parsed, and the bytes after the
  ellipsis are moved to the end. The result is the sixteen bytes and the zone.
\<close>

definition parseIPv6 :: "string \<Rightarrow> (byte list \<times> string) option" where
  "parseIPv6 inp =
     (case Cut inp CHR ''%'' of (s0, zone, found) \<Rightarrow>
        if found \<and> (zone = []) then None
        else
          let lead = (length s0 \<ge> 2 \<and> s0 ! 0 = CHR '':'' \<and> s0 ! 1 = CHR '':'');
              s1 = (if lead then drop 2 s0 else s0);
              ellipsis0 = (if lead then Some 0 else None)
          in if lead \<and> s1 = [] then Some (replicate 16 0, zone)
             else case parseIPv6_loop s1 0 (replicate 16 0) ellipsis0 of
               None \<Rightarrow> None
             | Some (s, i, ip, ellipsis) \<Rightarrow>
                 if s \<noteq> [] then None
                 else if i < 16 then
                   (case ellipsis of
                      None \<Rightarrow> None
                    | Some e \<Rightarrow>
                        Some (take e ip @ replicate (16 - i) 0 @ take (i - e) (drop e ip), zone))
                 else if ellipsis \<noteq> None then None
                 else Some (ip, zone))"

subsection \<open>ParseAddr, ParseIP and ParseCIDR\<close>

datatype Addr = Addr4 "byte list" | Addr6 "byte list" string

text \<open>
  \<^verbatim>\<open>netip.ParseAddr\<close> looks for the first of \<^verbatim>\<open>.\<close>, \<^verbatim>\<open>:\<close> and \<^verbatim>\<open>%\<close> in the text and
  parses the whole text as IPv4 or as IPv6 accordingly.
\<close>

fun ParseAddr_scan :: "string \<Rightarrow> string \<Rightarrow> Addr option" where
  "ParseAddr_scan [] whole = None"
| "ParseAddr_scan (c # cs) whole =
     (if c = CHR ''.'' then map_option Addr4 (parseIPv4Fields whole)
      else if c = CHR '':'' then map_option (\<lambda>(ip, zone). Addr6 ip zone) (parseIPv6 whole)
      else if c = CHR ''%'' then None
      else ParseAddr_scan cs whole)"

definition ParseAddr :: "string \<Rightarrow> Addr option" where
  "ParseAddr s = ParseAddr_scan s s"

fun Zone :: "Addr \<Rightarrow> string" where
  "Zone (Addr4 ip) = []"
| "Zone (Addr6 ip zone) = zone"

fun BitLen :: "Addr \<Rightarrow> nat" where
  "BitLen (Addr4 ip) = 32"
| "BitLen (Addr6 ip zone) = 128"

fun As16 :: "Addr \<Rightarrow> byte list" where
  "As16 (Addr4 ip) = v4InV6Prefix @ ip"
| "As16 (Addr6 ip zone) = ip"

text \<open>\<^verbatim>\<open>net.ParseIP\<close>: the sixteen-byte form of the address, \<^verbatim>\<open>nil\<close> for a text with a zone.\<close>

definition ParseIP :: "string \<Rightarrow> IP option" where
  "ParseIP s =
     (case ParseAddr s of
        None \<Rightarrow> None
      | Some a \<Rightarrow> if Zone a \<noteq> [] then None else Some (As16 a))"

text \<open>
  \<^verbatim>\<open>dtoi\<close>: the decimal digits at the head of the text, their value \<open>n\<close>, their number
  \<open>i\<close>, and whether there was a digit and the value stayed below \<^verbatim>\<open>0xFFFFFF\<close>.
\<close>

fun dtoi_loop :: "string \<Rightarrow> int \<Rightarrow> nat \<Rightarrow> int \<times> nat \<times> bool" where
  "dtoi_loop [] n i = (if i = 0 then (0, 0, False) else (n, i, True))"
| "dtoi_loop (c # cs) n i =
     (if isDigit c then
        (if n * 10 + int (digitVal c) \<ge> 0xFFFFFF then (0xFFFFFF, i, False)
         else dtoi_loop cs (n * 10 + int (digitVal c)) (i + 1))
      else if i = 0 then (0, 0, False) else (n, i, True))"

definition dtoi :: "string \<Rightarrow> int \<times> nat \<times> bool" where
  "dtoi s = dtoi_loop s 0 0"

text \<open>\<^verbatim>\<open>net.CIDRMask(ones, bits)\<close> for \<open>bits = 8 * l\<close>: \<open>ones\<close> one bits, then zeros.\<close>

fun CIDRMask_loop :: "nat \<Rightarrow> nat \<Rightarrow> IPMask" where
  "CIDRMask_loop 0 n = []"
| "CIDRMask_loop (Suc l) n =
     (if n \<ge> 8 then 0xff # CIDRMask_loop l (n - 8)
      else NOT (drop_bit n 0xff) # CIDRMask_loop l 0)"

definition CIDRMask :: "nat \<Rightarrow> nat \<Rightarrow> IPMask option" where
  "CIDRMask ones bits =
     (if bits \<noteq> 32 \<and> bits \<noteq> 128 then None
      else if ones > bits then None
      else Some (CIDRMask_loop (bits div 8) ones))"

definition allFF :: "byte list \<Rightarrow> bool" where
  "allFF b = list_all (\<lambda>c. c = 0xff) b"

text \<open>\<^verbatim>\<open>IP.Mask\<close>: the bytes of the address and of the mask, and-ed; \<^verbatim>\<open>nil\<close> when the lengths differ.\<close>

definition Mask :: "IP \<Rightarrow> IPMask \<Rightarrow> IP option" where
  "Mask ip0 mask0 =
     (let m = (if length mask0 = 16 \<and> length ip0 = 4 \<and> allFF (take 12 mask0)
               then drop 12 mask0 else mask0);
          ip = (if length m = 4 \<and> length ip0 = 16 \<and> take 12 ip0 = v4InV6Prefix
                then drop 12 ip0 else ip0)
      in if length ip \<noteq> length m then None
         else Some (map (\<lambda>i. (ip ! i) AND (m ! i)) [0 ..< length ip]))"

record IPNet =
  IP_of :: IP
  Mask_of :: IPMask

text \<open>
  \<^verbatim>\<open>net.ParseCIDR\<close>: the address before the first \<^verbatim>\<open>/\<close>, the prefix length after it,
  at most the number of bits of the address. It returns the address in its
  sixteen-byte form and the network (the masked address and the mask).
\<close>

definition ParseCIDR :: "string \<Rightarrow> (IP \<times> IPNet) option" where
  "ParseCIDR s =
     (case Cut s CHR ''/'' of (addr, maskStr, found) \<Rightarrow>
        if \<not> found then None
        else case ParseAddr addr of
          None \<Rightarrow> None
        | Some ipAddr \<Rightarrow>
            if Zone ipAddr \<noteq> [] then None
            else case dtoi maskStr of (n, i, ok) \<Rightarrow>
              if \<not> ok \<or> i \<noteq> length maskStr \<or> n < 0 \<or> n > int (BitLen ipAddr) then None
              else case CIDRMask (nat n) (BitLen ipAddr) of
                None \<Rightarrow> None
              | Some m \<Rightarrow>
                  (case Mask (As16 ipAddr) m of
                     None \<Rightarrow> Some (As16 ipAddr, \<lparr>IP_of = [], Mask_of = m\<rparr>)
                   | Some masked \<Rightarrow> Some (As16 ipAddr, \<lparr>IP_of = masked, Mask_of = m\<rparr>)))"

section \<open>Package network: parsing a range\<close>

datatype sentinel = ErrInvalidIPAddress | ErrInvalidCIDR | ErrInvalidRange | ErrNoLocalNetwork

text \<open>
  An error made by \<^verbatim>\<open>fmt.Errorf("%w: ...", sentinel, ...)\<close> is the sentinel it wraps
  and the text after the colon. A Go function that returns \<^verbatim>\<open>(*IPRange, error)\<close>
  returns a pair of options: \<^verbatim>\<open>nil\<close> is \<open>None\<close>.
\<close>

type_synonym error = "sentinel \<times> string"

definition parseCIDR :: "string \<Rightarrow> IPRange option \<times> error option" where
  "parseCIDR cidr =
     (case ParseCIDR cidr of
        None \<Rightarrow> (None, Some (ErrInvalidCIDR, cidr))
      | Some (ip, ipNet) \<Rightarrow>
          let startIP = (case Mask ip (Mask_of ipNet) of None \<Rightarrow> [] | Some m \<Rightarrow> m);
              endIP = map (\<lambda>i. (startIP ! i) OR NOT (Mask_of ipNet ! i)) [0 ..< length startIP]
          in (Some \<lparr>StartIP = startIP, EndIP = endIP\<rparr>, None))"

definition parseRange :: "string \<Rightarrow> IPRange option \<times> error option" where
  "parseRange rangeStr =
     (let parts = Split rangeStr CHR ''-'' in
      if length parts \<noteq> 2 then (None, Some (ErrInvalidRange, rangeStr))
      else case (ParseIP (TrimSpace (parts ! 0)), ParseIP (TrimSpace (parts ! 1))) of
        (Some startIP, Some endIP) \<Rightarrow> (Some \<lparr>StartIP = startIP, EndIP = endIP\<rparr>, None)
      | _ \<Rightarrow> (None, Some (ErrInvalidRange, ''invalid IP addresses in range '' @ rangeStr)))"

definition ParseIPRange :: "string \<Rightarrow> IPRange option \<times> error option" where
  "ParseIPRange ipRange =
     (if Contains ipRange ''/'' then parseCIDR ipRange
      else if Contains ipRange ''-'' then parseRange ipRange
      else case ParseIP ipRange of
        None \<Rightarrow> (None, Some (ErrInvalidIPAddress, ipRange))
      | Some ip \<Rightarrow> (Some \<lparr>StartIP = ip, EndIP = ip\<rparr>, None))"


section \<open>Package scanner\<close>

subsection \<open>The text of an address\<close>

text \<open>
  \<^verbatim>\<open>IP.String\<close> of the standard library: dot-decimal for an IPv4 address (in either
  form), the groups of an IPv6 address in hexadecimal with the first longest run of two
  or more zero groups written \<^verbatim>\<open>::\<close>, \<^verbatim>\<open><nil>\<close> for the empty slice and \<^verbatim>\<open>?\<close> with the
  bytes in hexadecimal for any other length.
\<close>

function itoa :: "int \<Rightarrow> string" where
  "itoa n = (if n < 10 then [char_of (48 + n)] else itoa (n div 10) @ [char_of (48 + n mod 10)])"
  by pat_completeness auto
termination
  by (relation "measure nat") auto

definition hexDigit :: "int \<Rightarrow> char" where
  "hexDigit n = ''0123456789abcdef'' ! nat n"

definition hexString :: "byte list \<Rightarrow> string" where
  "hexString b = concat (map (\<lambda>tn. [hexDigit (uint tn div 16), hexDigit (uint tn mod 16)]) b)"

definition appendHex :: "int \<Rightarrow> string" where
  "appendHex x =
     (if x \<ge> 0x1000 then [hexDigit (x div 0x1000)] else [])
     @ (if x \<ge> 0x100 then [hexDigit (x div 0x100 mod 16)] else [])
     @ (if x \<ge> 0x10 then [hexDigit (x div 0x10 mod 16)] else [])
     @ [hexDigit (x mod 16)]"

definition v6u16 :: "byte list \<Rightarrow> int list" where
  "v6u16 ip = map (\<lambda>k. uint (ip ! (2 * k)) * 256 + uint (ip ! (2 * k + 1))) [0 ..< 8]"

text \<open>The first longest run of at least two zero groups: where it starts and its length.\<close>

definition longestZeros :: "int list \<Rightarrow> nat \<times> nat" where
  "longestZeros gs =
     foldl (\<lambda>(zeroStart, len) i.
              let l = length (takeWhile (\<lambda>g. g = 0) (drop i gs))
              in if l \<ge> 2 \<and> l > len then (i, l) else (zeroStart, len))
       (255, 0) [0 ..< 8]"

function string6_loop :: "int list \<Rightarrow> nat \<Rightarrow> nat \<Rightarrow> nat \<Rightarrow> string" where
  "string6_loop gs zeroStart len i =
     (if \<not> i < 8 then []
      else if i = zeroStart then
        ''::'' @ (if i + len \<ge> 8 then []
                 else appendHex (gs ! (i + len)) @ string6_loop gs zeroStart len (i + len + 1))
      else (if i > 0 then '':'' else []) @ appendHex (gs ! i)
           @ string6_loop gs zeroStart len (i + 1))"
  by pat_completeness auto
termination
  by (relation "measure (\<lambda>(gs, zeroStart, len, i). 8 - i)") auto

definition String_IP :: "IP \<Rightarrow> string" where
  "String_IP ip =
     (if length ip = 0 then ''<nil>''
      else if length ip \<noteq> 4 \<and> length ip \<noteq> 16 then ''?'' @ hexString ip
      else case To4 ip of
        Some p4 \<Rightarrow>
          itoa (uint (p4 ! 0)) @ ''.'' @ itoa (uint (p4 ! 1)) @ ''.''
          @ itoa (uint (p4 ! 2)) @ ''.'' @ itoa (uint (p4 ! 3))
      | None \<Rightarrow>
          (case longestZeros (v6u16 ip) of
             (zeroStart, len) \<Rightarrow> string6_loop (v6u16 ip) zeroStart len 0))"

subsection \<open>The data of a scan\<close>

text \<open>
  A \<^verbatim>\<open>time.Duration\<close> is a number of nanoseconds. The error of a probe is either the
  error for an unsupported operating system, which wraps \<^verbatim>\<open>ErrUnsupportedOS\<close> and names
  the system, or the error that running the command returned, kept as it is.
\<close>

type_synonym Duration = int

datatype probe_error = ErrUnsupportedOS string | RunError string

record Host =
  IP :: IP
  Hostname :: string
  MAC :: string
  Vendor :: string
  Latency :: Duration
  IsAlive :: bool
  Error :: "probe_error option"

record ScanResult =
  NetworkRange :: string
  TotalHosts :: int
  AliveHosts :: int
  Hosts :: "Host list"
  ScanTime :: Duration

subsection \<open>The world outside the program\<close>

text \<open>
  The program runs the commands \<^verbatim>\<open>ping\<close> and \<^verbatim>\<open>arp\<close> and asks the resolver for a name.
  What they answer is not the program's: it is a parameter of the model. For every
  command line and every time of the call, \<open>cmdRun\<close> is the error of \<^verbatim>\<open>Cmd.Run\<close> (\<open>None\<close>
  when the process ran and exited with status 0, otherwise the text of the error:
  a failure to start or an exit status that is not 0); \<open>cmdOutput\<close> is the standard
  output and the error of \<^verbatim>\<open>Cmd.Output\<close>; \<open>lookupAddr\<close> is the result of
  \<^verbatim>\<open>net.LookupAddr\<close>; \<open>elapsed\<close> is the time the call takes. \<open>GOOS\<close> is
  \<^verbatim>\<open>runtime.GOOS\<close>.

  The state of the world is the clock, in nanoseconds, and the calls made so far.
\<close>

datatype call = RunCall "string list" | OutputCall "string list" | LookupAddrCall string

record env =
  GOOS :: string
  cmdRun :: "string list \<Rightarrow> int \<Rightarrow> string option"
  cmdOutput :: "string list \<Rightarrow> int \<Rightarrow> string \<times> string option"
  lookupAddr :: "string \<Rightarrow> int \<Rightarrow> string list \<times> string option"
  elapsed :: "call \<Rightarrow> int \<Rightarrow> Duration"

record world =
  clock :: int
  calls :: "call list"

definition perform :: "env \<Rightarrow> call \<Rightarrow> world \<Rightarrow> world" where
  "perform e c w = \<lparr>clock = clock w + elapsed e c (clock w), calls = calls w @ [c]\<rparr>"

subsection \<open>pingHost\<close>

text \<open>
  The text \<^verbatim>\<open>fmt.Sprintf("%.0f", timeout.Seconds()*1000)\<close>: the duration in
  milliseconds, rounded to an integer (a half to the even one), in decimal. The
  program computes it in \<^verbatim>\<open>float64\<close>; here the arithmetic is exact, which gives the
  same text for every duration of a whole number of milliseconds below \<open>2^50\<close>.
\<close>

definition Sprintf_0f_millis :: "Duration \<Rightarrow> string" where
  "Sprintf_0f_millis timeout =
     (let a = \<bar>timeout\<bar>; q = a div 1000000; r = a mod 1000000;
          n = (if 2 * r < 1000000 then q
               else if 2 * r > 1000000 then q + 1
               else if even q then q else q + 1)
      in (if timeout < 0 then ''-'' else []) @ itoa n)"

text \<open>
  \<^verbatim>\<open>pingHost\<close> first builds the command in a \<^verbatim>\<open>switch\<close> on \<^verbatim>\<open>runtime.GOOS\<close>, then
  runs it. The command is its argument vector; the default branch of the \<^verbatim>\<open>switch\<close>,
  which returns the error for an unsupported system, is \<open>None\<close>.
\<close>

definition pingHost_cmd :: "string \<Rightarrow> string \<Rightarrow> Duration \<Rightarrow> string list option" where
  "pingHost_cmd goos ip timeout =
     (if goos = ''windows'' then
        Some [''ping'', ''-n'', ''1'', ''-w'', Sprintf_0f_millis timeout, ip]
      else if goos = ''darwin'' \<or> goos = ''linux'' then
        Some [''ping'', ''-c'', ''1'', ''-W'', Sprintf_0f_millis timeout, ip]
      else None)"

definition pingHost ::
  "env \<Rightarrow> string \<Rightarrow> Duration \<Rightarrow> world \<Rightarrow> (bool \<times> probe_error option) \<times> world" where
  "pingHost e ip timeout w =
     (case pingHost_cmd (GOOS e) ip timeout of
        None \<Rightarrow> ((False, Some (ErrUnsupportedOS (GOOS e))), w)
      | Some argv \<Rightarrow>
          let err = cmdRun e argv (clock w)
          in ((err = None, map_option RunError err), perform e (RunCall argv) w))"

subsection \<open>getMACAddress\<close>

fun firstMAC :: "string list \<Rightarrow> string option" where
  "firstMAC [] = None"
| "firstMAC (field # rest) =
     (if Count field CHR '':'' = 5 \<or> Count field CHR ''-'' = 5 then Some (ToUpper field)
      else firstMAC rest)"

fun scanARP :: "string list \<Rightarrow> string \<Rightarrow> string" where
  "scanARP [] ip = []"
| "scanARP (line # rest) ip =
     (if Contains line ip then
        (case firstMAC (Fields line) of
           Some mac \<Rightarrow> mac
         | None \<Rightarrow> scanARP rest ip)
      else scanARP rest ip)"

definition getMACAddress_cmd :: "string \<Rightarrow> string \<Rightarrow> string list option" where
  "getMACAddress_cmd goos ip =
     (if goos = ''windows'' then Some [''arp'', ''-a'', ip]
      else if goos = ''darwin'' \<or> goos = ''linux'' then Some [''arp'', ''-n'', ip]
      else None)"

definition getMACAddress :: "env \<Rightarrow> string \<Rightarrow> world \<Rightarrow> string \<times> world" where
  "getMACAddress e ip w =
     (case getMACAddress_cmd (GOOS e) ip of
        None \<Rightarrow> ([], w)
      | Some argv \<Rightarrow>
          (case cmdOutput e argv (clock w) of
             (output, Some err) \<Rightarrow> ([], perform e (OutputCall argv) w)
           | (output, None) \<Rightarrow>
               (scanARP (Split output CHR 0x0A) ip, perform e (OutputCall argv) w)))"

subsection \<open>getVendorFromMAC\<close>

text \<open>
  The table of the function, in the order of the source. Go visits the entries of a
  map in an order of its own; the keys all have eight characters and differ, so at
  most one of them is a prefix of a given text and the order does not matter
  (\<open>vendors_at_most_one\<close> below).
\<close>

definition vendors :: "(string \<times> string) list" where
  "vendors =
     [(''00:50:56'', ''VMware''),
      (''08:00:27'', ''Oracle VirtualBox''),
      (''52:54:00'', ''QEMU/KVM''),
      (''B8:27:EB'', ''Raspberry Pi Foundation''),
      (''DC:A6:32'', ''Raspberry Pi Foundation''),
      (''E4:5F:01'', ''Raspberry Pi Foundation''),
      (''00:16:3E'', ''Xen''),
      (''00:1C:42'', ''Parallels''),
      (''AC:DE:48'', ''Apple''),
      (''F8:FF:C2'', ''Apple''),
      (''28:CD:C1'', ''Apple''),
      (''3C:07:54'', ''Apple'')]"

text \<open>
  The function computes \<open>oui\<close>, the first eight characters without colons and hyphens
  and in upper case, and then does not read it: the loop tests the prefixes of the
  table against \<open>mac\<close> itself.
\<close>

definition getVendorFromMAC :: "string \<Rightarrow> string" where
  "getVendorFromMAC mac =
     (if length mac < 8 then ''Unknown''
      else
        let oui = ToUpper (ReplaceAll (ReplaceAll (take 8 mac) CHR '':'' []) CHR ''-'' [])
        in case find (\<lambda>(ouiPrefix, vendor). HasPrefix mac ouiPrefix) vendors of
             Some (ouiPrefix, vendor) \<Rightarrow> vendor
           | None \<Rightarrow> ''Unknown'')"

subsection \<open>scanHost\<close>

definition scanHost :: "env \<Rightarrow> IP \<Rightarrow> Duration \<Rightarrow> world \<Rightarrow> Host \<times> world" where
  "scanHost e ip timeout w =
     (let start = clock w in
      case pingHost e (String_IP ip) timeout w of
        ((isAlive, err), w1) \<Rightarrow>
          let host = \<lparr>IP = ip, Hostname = [], MAC = [], Vendor = [],
                      Latency = clock w1 - start, IsAlive = isAlive, Error = err\<rparr>
          in if isAlive then
               (case lookupAddr e (String_IP ip) (clock w1) of
                  (names, lerr) \<Rightarrow>
                    let w2 = perform e (LookupAddrCall (String_IP ip)) w1;
                        host1 = (if lerr = None \<and> length names > 0
                                 then host\<lparr>Hostname := TrimSuffix (names ! 0) ''.''\<rparr>
                                 else host)
                    in case getMACAddress e (String_IP ip) w2 of
                         (mac, w3) \<Rightarrow>
                           (if mac \<noteq> []
                            then host1\<lparr>MAC := mac, Vendor := getVendorFromMAC mac\<rparr>
                            else host1, w3))
             else (host, w1))"

subsection \<open>An example world\<close>

text \<open>
  A world for the examples: a Linux machine on which only 127.0.0.1 answers the probe,
  the resolver knows it as \<^verbatim>\<open>localhost.\<close>, the neighbour table has nothing, and every
  call takes five milliseconds.
\<close>

definition example_env :: env where
  "example_env =
     \<lparr>GOOS = ''linux'',
      cmdRun = (\<lambda>argv t. if last argv = ''127.0.0.1'' then None else Some ''exit status 1''),
      cmdOutput = (\<lambda>argv t. ([], Some ''exit status 1'')),
      lookupAddr = (\<lambda>addr t. ([''localhost.''], None)),
      elapsed = (\<lambda>c t. 5000000)\<rparr>"

definition example_world :: world where
  "example_world = \<lparr>clock = 0, calls = []\<rparr>"


section \<open>ScanNetwork: the worker pool\<close>

text \<open>
  \<^verbatim>\<open>ScanNetwork\<close> starts \<^verbatim>\<open>maxWorkers\<close> worker goroutines, a goroutine that sends every
  address on the channel \<^verbatim>\<open>jobs\<close> and closes it, and a goroutine that waits for the
  workers and closes the channel \<^verbatim>\<open>results\<close>; itself it receives from \<^verbatim>\<open>results\<close> until
  the channel is closed and empty. The goroutines run in any order. The model is a
  step relation on the state of all of them: one step is one action of one goroutine,
  and every interleaving of the goroutines is a sequence of steps.

  A worker stands at the head of its loop (\<^verbatim>\<open>for ip := range jobs\<close>), or holds an
  address it has received and is about to scan, or holds the record it is about to send
  (\<^verbatim>\<open>results <- host\<close>), or has left the loop and called \<^verbatim>\<open>wg.Done\<close>.
\<close>

datatype wstate = Receiving | Scanning IP | Sending Host | Exited

text \<open>
  The state: the addresses that the feeder has yet to send (\<open>None\<close> once it has closed
  \<^verbatim>\<open>jobs\<close>), the buffers of the two channels and whether they are closed, the workers,
  the counter of the wait group, the result under construction, whether
  \<^verbatim>\<open>ScanNetwork\<close> has returned, the world, and the time of the start.
\<close>

record engine =
  feeder :: "IP list option"
  jobs :: "IP list"
  jobs_closed :: bool
  workers :: "wstate list"
  wg :: nat
  results :: "Host list"
  results_closed :: bool
  result :: ScanResult
  returned :: bool
  world :: world
  start_time :: int

text \<open>
  The state once \<^verbatim>\<open>ScanNetwork\<close> has made the result, the channels and the goroutines.
  The loop \<^verbatim>\<open>for w := 0; w < maxWorkers; w++\<close> starts no worker when \<^verbatim>\<open>maxWorkers\<close> is
  zero or negative. (A worker leaves its loop only when \<^verbatim>\<open>jobs\<close> is closed, and the
  feeder is started after the last worker, so the counter is \<^verbatim>\<open>maxWorkers\<close> before any
  worker calls \<^verbatim>\<open>wg.Done\<close>.)
\<close>

definition ScanNetwork_init :: "IP list \<Rightarrow> int \<Rightarrow> world \<Rightarrow> engine" where
  "ScanNetwork_init ips maxWorkers w =
     \<lparr>feeder = Some ips, jobs = [], jobs_closed = False,
      workers = replicate (nat maxWorkers) Receiving, wg = nat maxWorkers,
      results = [], results_closed = False,
      result = \<lparr>NetworkRange = [], TotalHosts = int (length ips), AliveHosts = 0,
                 Hosts = [], ScanTime = 0\<rparr>,
      returned = False, world = w, start_time = clock w\<rparr>"

text \<open>
  The steps. Both channels have the capacity \<open>cap\<close>, which is \<^verbatim>\<open>len(ips)\<close>: a send needs
  room in the buffer, a receive needs an element in it or, to end a \<^verbatim>\<open>range\<close> loop, a
  closed and empty channel.
\<close>

inductive step :: "env \<Rightarrow> Duration \<Rightarrow> nat \<Rightarrow> engine \<Rightarrow> engine \<Rightarrow> bool"
  for e :: env and timeout :: Duration and cap :: nat where
  feed:
    "feeder s = Some (ip # rest) \<Longrightarrow> length (jobs s) < cap
     \<Longrightarrow> step e timeout cap s (s\<lparr>feeder := Some rest, jobs := jobs s @ [ip]\<rparr>)"
| close_jobs:
    "feeder s = Some []
     \<Longrightarrow> step e timeout cap s (s\<lparr>feeder := None, jobs_closed := True\<rparr>)"
| receive:
    "i < length (workers s) \<Longrightarrow> workers s ! i = Receiving \<Longrightarrow> jobs s = ip # rest
     \<Longrightarrow> step e timeout cap s (s\<lparr>jobs := rest, workers := (workers s)[i := Scanning ip]\<rparr>)"
| scan:
    "i < length (workers s) \<Longrightarrow> workers s ! i = Scanning ip
     \<Longrightarrow> scanHost e ip timeout (world s) = (host, w')
     \<Longrightarrow> step e timeout cap s (s\<lparr>workers := (workers s)[i := Sending host], world := w'\<rparr>)"
| send:
    "i < length (workers s) \<Longrightarrow> workers s ! i = Sending host \<Longrightarrow> length (results s) < cap
     \<Longrightarrow> step e timeout cap s
           (s\<lparr>results := results s @ [host], workers := (workers s)[i := Receiving]\<rparr>)"
| leave:
    "i < length (workers s) \<Longrightarrow> workers s ! i = Receiving \<Longrightarrow> jobs s = [] \<Longrightarrow> jobs_closed s
     \<Longrightarrow> step e timeout cap s (s\<lparr>workers := (workers s)[i := Exited], wg := wg s - 1\<rparr>)"
| close_results:
    "wg s = 0 \<Longrightarrow> \<not> results_closed s
     \<Longrightarrow> step e timeout cap s (s\<lparr>results_closed := True\<rparr>)"
| collect:
    "\<not> returned s \<Longrightarrow> results s = host # rest
     \<Longrightarrow> step e timeout cap s
           (s\<lparr>results := rest,
              result := (result s)\<lparr>Hosts := Hosts (result s) @ [host],
                AliveHosts := AliveHosts (result s) + (if IsAlive host then 1 else 0)\<rparr>\<rparr>)"
| finish:
    "\<not> returned s \<Longrightarrow> results s = [] \<Longrightarrow> results_closed s
     \<Longrightarrow> step e timeout cap s
           (s\<lparr>result := (result s)\<lparr>ScanTime := clock (world s) - start_time s\<rparr>,
              returned := True\<rparr>)"

text \<open>The states that a run of \<^verbatim>\<open>ScanNetwork(ips, timeout, maxWorkers)\<close> started in \<open>w\<close> reaches.\<close>

definition reaches :: "env \<Rightarrow> IP list \<Rightarrow> Duration \<Rightarrow> int \<Rightarrow> world \<Rightarrow> engine \<Rightarrow> bool" where
  "reaches e ips timeout maxWorkers w s
     = (step e timeout (length ips))\<^sup>*\<^sup>* (ScanNetwork_init ips maxWorkers w) s"

text \<open>
  What a worker holds, as a multiset of addresses, whether it still counts in the wait
  group, and how many steps it is from leaving at least.
\<close>

fun held :: "wstate \<Rightarrow> IP multiset" where
  "held Receiving = {#}"
| "held (Scanning ip) = {#ip#}"
| "held (Sending host) = {#IP host#}"
| "held Exited = {#}"

fun active :: "wstate \<Rightarrow> nat" where
  "active Exited = 0"
| "active w = 1"

fun weight :: "wstate \<Rightarrow> nat" where
  "weight Receiving = 1"
| "weight (Scanning ip) = 4"
| "weight (Sending host) = 3"
| "weight Exited = 0"

definition pending :: "engine \<Rightarrow> IP list" where
  "pending s = (case feeder s of None \<Rightarrow> [] | Some l \<Rightarrow> l)"

text \<open>The number of steps that a state has left at most.\<close>

definition steps_left :: "engine \<Rightarrow> nat" where
  "steps_left s =
     5 * length (pending s) + (if feeder s = None then 0 else 1)
     + 4 * length (jobs s) + sum_list (map weight (workers s))
     + length (results s) + (if results_closed s then 0 else 1)
     + (if returned s then 0 else 1)"

text \<open>
  Whether the host at an address answers the probe, where the answer of the command
  does not depend on the time of the call (\<open>steady\<close>).
\<close>

definition steady :: "env \<Rightarrow> bool" where
  "steady e = (\<forall>argv t t'. cmdRun e argv t = cmdRun e argv t')"

definition answers :: "env \<Rightarrow> Duration \<Rightarrow> IP \<Rightarrow> bool" where
  "answers e timeout ip =
     (case pingHost_cmd (GOOS e) (String_IP ip) timeout of
        None \<Rightarrow> False
      | Some argv \<Rightarrow> cmdRun e argv 0 = None)"

text \<open>What holds in every state of a run.\<close>

definition invariant :: "IP list \<Rightarrow> engine \<Rightarrow> bool" where
  "invariant ips s =
     (mset (pending s) + mset (jobs s) + sum_list (map held (workers s))
        + mset (map IP (results s)) + mset (map IP (Hosts (result s))) = mset ips
      \<and> wg s = sum_list (map active (workers s))
      \<and> (jobs_closed s \<longleftrightarrow> feeder s = None)
      \<and> (results_closed s \<longrightarrow> wg s = 0)
      \<and> (Exited \<in> set (workers s) \<longrightarrow> jobs_closed s \<and> jobs s = [])
      \<and> (returned s \<longrightarrow> results_closed s \<and> results s = [])
      \<and> AliveHosts (result s) = int (length (filter IsAlive (Hosts (result s))))
      \<and> TotalHosts (result s) = int (length ips))"


section \<open>Properties of the conversions\<close>

lemma To4_IPv4: "To4 (IPv4 a b c d) = Some [a, b, c, d]"
  by (simp add: To4_def IPv4_def v4InV6Prefix_def isZeros_def)

lemma length_To4: "To4 ip = Some ip4 \<Longrightarrow> length ip4 = 4"
  by (auto simp: To4_def split: if_splits)

lemma To4_idem: "To4 ip = Some ip4 \<Longrightarrow> To4 ip4 = Some ip4"
  by (auto simp: To4_def split: if_splits)

lemma length4_conv: "length ip = 4 \<longleftrightarrow> (\<exists>a b c d. ip = [a, b, c, d])"
  by (auto simp: length_Suc_conv numeral_eq_Suc)

lemma pack_or:
  fixes a b c d :: byte
  shows "(push_bit 24 (ucast a) + push_bit 16 (ucast b) + push_bit 8 (ucast c) + ucast d :: uint32)
       = push_bit 24 (ucast a) OR push_bit 16 (ucast b) OR push_bit 8 (ucast c) OR ucast d"
proof -
  let ?A = "push_bit 24 (ucast a) :: uint32"
  let ?B = "push_bit 16 (ucast b) :: uint32"
  let ?C = "push_bit 8 (ucast c) :: uint32"
  let ?D = "ucast d :: uint32"
  have 1: "?A AND ?B = 0"
    by (rule bit_word_eqI) (auto simp: bit_simps dest: bit_imp_le_length)
  have 2: "(?A OR ?B) AND ?C = 0"
    by (rule bit_word_eqI) (auto simp: bit_simps dest: bit_imp_le_length)
  have 3: "((?A OR ?B) OR ?C) AND ?D = 0"
    by (rule bit_word_eqI) (auto simp: bit_simps dest: bit_imp_le_length)
  have "?A + ?B = ?A OR ?B"
    by (rule disjunctive_add_eq_or) (rule 1)
  moreover have "(?A OR ?B) + ?C = (?A OR ?B) OR ?C"
    by (rule disjunctive_add_eq_or) (rule 2)
  moreover have "((?A OR ?B) OR ?C) + ?D = ((?A OR ?B) OR ?C) OR ?D"
    by (rule disjunctive_add_eq_or) (rule 3)
  ultimately show ?thesis
    by (simp only: or.assoc)
qed

lemma unpack_pack:
  "(push_bit 24 (ucast (ucast (drop_bit 24 n :: uint32) :: byte))
    OR push_bit 16 (ucast (ucast (drop_bit 16 n) :: byte))
    OR push_bit 8 (ucast (ucast (drop_bit 8 n) :: byte))
    OR ucast (ucast n :: byte) :: uint32) = n"
proof (rule bit_word_eqI)
  fix k
  assume k: "k < LENGTH(32)"
  consider "k < 8" | "8 \<le> k" "k < 16" | "16 \<le> k" "k < 24" | "24 \<le> k"
    by linarith
  then show "bit (push_bit 24 (ucast (ucast (drop_bit 24 n :: uint32) :: byte))
    OR push_bit 16 (ucast (ucast (drop_bit 16 n) :: byte))
    OR push_bit 8 (ucast (ucast (drop_bit 8 n) :: byte))
    OR ucast (ucast n :: byte) :: uint32) k = bit n k"
    using k by cases (auto simp: bit_simps)
qed

lemma pack_unpack:
  fixes a b c d :: byte
  defines "n \<equiv> (push_bit 24 (ucast a) OR push_bit 16 (ucast b) OR push_bit 8 (ucast c) OR ucast d :: uint32)"
  shows "ucast (drop_bit 24 n) = a" "ucast (drop_bit 16 n) = b"
    "ucast (drop_bit 8 n) = c" "ucast n = d"
  unfolding n_def
  by (rule bit_word_eqI; auto simp: bit_simps dest: bit_imp_le_length)+

lemma ipToUint32_bytes:
  "ipToUint32 [a, b, c, d] =
     Some (push_bit 24 (ucast a) OR push_bit 16 (ucast b) OR push_bit 8 (ucast c) OR ucast d)"
  by (simp add: ipToUint32_def To4_def pack_or)

lemma ipToUint32_uint32ToIP: "ipToUint32 (uint32ToIP n) = Some n"
  by (simp add: ipToUint32_def uint32ToIP_def To4_IPv4 pack_or unpack_pack)

lemma uint32ToIP_bytes:
  "uint32ToIP (push_bit 24 (ucast a) OR push_bit 16 (ucast b) OR push_bit 8 (ucast c) OR ucast d)
     = IPv4 a b c d"
  by (simp only: uint32ToIP_def pack_unpack)

lemma Equal_IP_IPv4: "Equal_IP (IPv4 a b c d) [a, b, c, d]"
  by (simp add: Equal_IP_def IPv4_def v4InV6Prefix_def)

lemma uint32ToIP_inj: "uint32ToIP m = uint32ToIP n \<Longrightarrow> m = n"
  by (metis ipToUint32_uint32ToIP option.inject)

section \<open>Properties of the expansion loop\<close>

text \<open>
  A loop that returns had an end value below \<open>2^32 - 1\<close>: at \<open>end = 2^32 - 1\<close> the
  test \<open>i \<le> end\<close> holds for every \<open>i\<close>, and \<open>i + 1\<close> wraps around.
\<close>

lemma GenerateIPs_loop_Some_not_max:
  "GenerateIPs_loop i end_v ips = Some y \<Longrightarrow> end_v \<noteq> - 1"
proof (rule GenerateIPs_loop.raw_induct [where P = "\<lambda>i e ips y. e \<noteq> - 1"])
  fix loop :: "uint32 \<Rightarrow> uint32 \<Rightarrow> IP list \<Rightarrow> IP list option" and j e :: uint32 and xs z
  assume IH: "\<And>j e xs z. loop j e xs = Some z \<Longrightarrow> e \<noteq> - 1"
    and step: "(if j \<le> e then loop (j + 1) e (xs @ [uint32ToIP j]) else Some xs) = Some z"
  show "e \<noteq> - 1"
  proof (cases "j \<le> e")
    case True
    with step IH show ?thesis by auto
  next
    case False
    then show ?thesis by auto
  qed
qed

lemma GenerateIPs_loop_max: "GenerateIPs_loop i (- 1) ips = None"
  using GenerateIPs_loop_Some_not_max [of i "- 1" ips]
  by (cases "GenerateIPs_loop i (- 1) ips") auto

lemma unat_succ: "(i :: uint32) \<noteq> - 1 \<Longrightarrow> unat (i + 1) = Suc (unat i)"
  by (simp add: add.commute add_eq_0_iff unatSuc)

text \<open>Below the maximal end value the loop returns, with every value from \<open>i\<close> to the end.\<close>

lemma GenerateIPs_loop_terminates:
  assumes "end_v \<noteq> - 1"
  shows "GenerateIPs_loop i end_v ips
           = Some (ips @ map (\<lambda>k. uint32ToIP (of_nat k)) [unat i ..< Suc (unat end_v)])"
  using assms
proof (induction "Suc (unat end_v) - unat i" arbitrary: i ips)
  case 0
  then have "\<not> i \<le> end_v"
    by (simp add: word_le_nat_alt)
  with 0 show ?case
    by (subst GenerateIPs_loop.simps) simp
next
  case (Suc n)
  then have le: "i \<le> end_v"
    by (simp add: word_le_nat_alt)
  with Suc.prems have "i \<noteq> - 1"
    by (metis word_order.extremum_unique)
  then have u: "unat (i + 1) = Suc (unat i)"
    by (rule unat_succ)
  have "GenerateIPs_loop (i + 1) end_v (ips @ [uint32ToIP i])
      = Some ((ips @ [uint32ToIP i])
          @ map (\<lambda>k. uint32ToIP (of_nat k)) [unat (i + 1) ..< Suc (unat end_v)])"
    using Suc.hyps(2) Suc.prems u by (intro Suc.hyps(1)) simp_all
  moreover have "[unat i ..< Suc (unat end_v)] = unat i # [Suc (unat i) ..< Suc (unat end_v)]"
    using le by (simp add: word_le_nat_alt upt_conv_Cons)
  ultimately show ?case
    using le u by (subst GenerateIPs_loop.simps) simp
qed

lemma GenerateIPs_loop_returns_iff:
  "(\<exists>y. GenerateIPs_loop i end_v ips = Some y) \<longleftrightarrow> end_v \<noteq> - 1"
  using GenerateIPs_loop_Some_not_max GenerateIPs_loop_terminates by blast

section \<open>Properties of GenerateIPs\<close>

lemma ipToUint32_None_iff: "ipToUint32 ip = None \<longleftrightarrow> To4 ip = None"
  by (simp add: ipToUint32_def split: option.splits)

lemma ipToUint32_To4: "To4 ip = Some ip4 \<Longrightarrow> ipToUint32 ip4 = ipToUint32 ip"
  by (simp add: ipToUint32_def To4_idem)

text \<open>
  The result of \<^verbatim>\<open>GenerateIPs\<close> in terms of the two endpoints as integers. The branch
  of the definition in which \<^verbatim>\<open>ipToUint32\<close> panics is never taken.
\<close>

lemma GenerateIPs_eq:
  "GenerateIPs r =
     (case (ipToUint32 (StartIP r), ipToUint32 (EndIP r)) of
        (Some start, Some end_v) \<Rightarrow> GenerateIPs_loop start end_v []
      | _ \<Rightarrow> Some [])"
proof (cases "To4 (StartIP r)")
  case None
  then show ?thesis
    by (simp add: GenerateIPs_def ipToUint32_def)
next
  case s: (Some startIP)
  show ?thesis
  proof (cases "To4 (EndIP r)")
    case None
    with s show ?thesis
      by (simp add: GenerateIPs_def ipToUint32_def)
  next
    case e: (Some endIP)
    from s e show ?thesis
      by (simp add: GenerateIPs_def ipToUint32_To4 ipToUint32_def To4_idem)
  qed
qed

lemma GenerateIPs_not_IPv4:
  "To4 (StartIP r) = None \<or> To4 (EndIP r) = None \<Longrightarrow> GenerateIPs r = Some []"
  by (auto simp: GenerateIPs_def split: option.splits)

lemma GenerateIPs_max_end:
  "ipToUint32 (StartIP r) = Some start \<Longrightarrow> ipToUint32 (EndIP r) = Some (- 1)
     \<Longrightarrow> GenerateIPs r = None"
  by (simp add: GenerateIPs_eq GenerateIPs_loop_max)

lemma GenerateIPs_enumerates:
  "ipToUint32 (StartIP r) = Some start \<Longrightarrow> ipToUint32 (EndIP r) = Some end_v \<Longrightarrow> end_v \<noteq> - 1
     \<Longrightarrow> GenerateIPs r
           = Some (map (\<lambda>k. uint32ToIP (of_nat k)) [unat start ..< Suc (unat end_v)])"
  by (simp add: GenerateIPs_eq GenerateIPs_loop_terminates)

lemma GenerateIPs_start_gt_end:
  "ipToUint32 (StartIP r) = Some start \<Longrightarrow> ipToUint32 (EndIP r) = Some end_v \<Longrightarrow> end_v < start
     \<Longrightarrow> GenerateIPs r = Some []"
proof -
  assume s: "ipToUint32 (StartIP r) = Some start" and e: "ipToUint32 (EndIP r) = Some end_v"
    and lt: "end_v < start"
  from lt have "end_v \<noteq> - 1"
    by (metis word_order.extremum_strict)
  moreover from lt have "Suc (unat end_v) \<le> unat start"
    by (simp add: word_less_nat_alt)
  ultimately show ?thesis
    using s e by (simp add: GenerateIPs_enumerates)
qed

text \<open>\<^verbatim>\<open>GenerateIPs\<close> returns exactly when the end is not the address 255.255.255.255.\<close>

lemma GenerateIPs_returns_iff:
  "(\<exists>ips. GenerateIPs r = Some ips)
     \<longleftrightarrow> \<not> (To4 (StartIP r) \<noteq> None \<and> ipToUint32 (EndIP r) = Some (- 1))"
proof (cases "ipToUint32 (StartIP r)")
  case None
  moreover from None have "To4 (StartIP r) = None"
    using ipToUint32_None_iff by blast
  ultimately show ?thesis
    by (simp add: GenerateIPs_eq)
next
  case s: (Some start)
  then have t: "To4 (StartIP r) \<noteq> None"
    using ipToUint32_None_iff by force
  show ?thesis
  proof (cases "ipToUint32 (EndIP r)")
    case None
    with s show ?thesis
      by (simp add: GenerateIPs_eq)
  next
    case (Some end_v)
    with s t show ?thesis
      using GenerateIPs_loop_returns_iff [of start end_v "[]"] by (simp add: GenerateIPs_eq)
  qed
qed

text \<open>
  Where the loop returns, the addresses are those of the integers from the start to the
  end, in this order: their number, their values and their order.
\<close>

lemma GenerateIPs_length:
  "ipToUint32 (StartIP r) = Some start \<Longrightarrow> ipToUint32 (EndIP r) = Some end_v \<Longrightarrow> end_v \<noteq> - 1
     \<Longrightarrow> GenerateIPs r = Some ips \<Longrightarrow> length ips = Suc (unat end_v) - unat start"
  by (auto simp: GenerateIPs_enumerates)

lemma GenerateIPs_nth:
  assumes "ipToUint32 (StartIP r) = Some start" "ipToUint32 (EndIP r) = Some end_v"
    "end_v \<noteq> - 1" "GenerateIPs r = Some ips" "k < length ips"
  shows "ipToUint32 (ips ! k) = Some (start + of_nat k)"
proof -
  from assms have ips: "ips = map (\<lambda>k. uint32ToIP (of_nat k)) [unat start ..< Suc (unat end_v)]"
    by (simp add: GenerateIPs_enumerates)
  with assms(5) have "ips ! k = uint32ToIP (of_nat (unat start + k))"
    by (simp del: upt_Suc)
  then show ?thesis
    by (simp add: ipToUint32_uint32ToIP)
qed

lemma unat_start_plus:
  fixes start end_v :: uint32
  assumes "unat start + k \<le> unat end_v"
  shows "unat (start + of_nat k) = unat start + k"
proof -
  have "unat end_v < 2 ^ 32"
    using unsigned_less [of end_v, where ?'a = nat] by simp
  with assms have "unat start + k < 2 ^ 32"
    by linarith
  then show ?thesis
    by (simp add: unat_word_ariths unsigned_of_nat take_bit_nat_eq_self)
qed


section \<open>Properties of the parsers\<close>

lemma Contains_char: "Contains s [c] \<longleftrightarrow> c \<in> set s"
  by (induction s) (auto elim: HasPrefix.elims)

lemma parseIPv4Fields_loop_bad_char:
  "c \<in> set s \<Longrightarrow> \<not> isDigit c \<Longrightarrow> c \<noteq> CHR ''.''
     \<Longrightarrow> parseIPv4Fields_loop s i prev val pos digLen octets = None"
  by (induction s arbitrary: i prev val pos digLen octets) auto

lemma parseIPv4Fields_loop_no_dot:
  "CHR ''.'' \<notin> set s \<Longrightarrow> pos < 3
     \<Longrightarrow> parseIPv4Fields_loop s i prev val pos digLen octets = None"
  by (induction s arbitrary: i prev val pos digLen octets) auto

lemma isDigit_not_delim: "\<not> isDigit CHR ''%''" "\<not> isDigit CHR '':''"
  by (simp_all add: isDigit_def byteOf_def)

text \<open>A text without a colon is an address exactly when it is a dot-decimal IPv4 address.\<close>

lemma ParseAddr_scan_no_colon:
  "CHR '':'' \<notin> set s \<Longrightarrow> whole = pre @ s \<Longrightarrow> CHR ''.'' \<notin> set pre
     \<Longrightarrow> ParseAddr_scan s whole = map_option Addr4 (parseIPv4Fields whole)"
proof (induction s arbitrary: pre)
  case Nil
  then show ?case
    by (simp add: parseIPv4Fields_def parseIPv4Fields_loop_no_dot)
next
  case (Cons c cs)
  show ?case
  proof (cases "c = CHR ''.''")
    case True
    then show ?thesis by simp
  next
    case dot: False
    show ?thesis
    proof (cases "c = CHR ''%''")
      case True
      with Cons.prems have "CHR ''%'' \<in> set whole"
        by simp
      then have "parseIPv4Fields whole = None"
        unfolding parseIPv4Fields_def
        by (rule parseIPv4Fields_loop_bad_char) (simp_all add: isDigit_not_delim)
      with True show ?thesis by simp
    next
      case False
      with dot Cons.prems have "ParseAddr_scan cs whole = map_option Addr4 (parseIPv4Fields whole)"
        by (intro Cons.IH [where pre = "pre @ [c]"]) auto
      with dot False Cons.prems show ?thesis by auto
    qed
  qed
qed

lemma ParseIP_no_colon:
  "CHR '':'' \<notin> set s \<Longrightarrow> ParseIP s = map_option (\<lambda>ip. v4InV6Prefix @ ip) (parseIPv4Fields s)"
  using ParseAddr_scan_no_colon [of s s "[]"]
  by (cases "parseIPv4Fields s") (simp_all add: ParseIP_def ParseAddr_def)

lemma parseCIDR_result:
  "fst (parseCIDR s) = None \<longleftrightarrow> snd (parseCIDR s) \<noteq> None"
  "snd (parseCIDR s) \<noteq> None \<longleftrightarrow> ParseCIDR s = None"
  "snd (parseCIDR s) \<noteq> None \<longleftrightarrow> map_option fst (snd (parseCIDR s)) = Some ErrInvalidCIDR"
  by (auto simp: parseCIDR_def Let_def split: option.splits prod.splits)

lemma parseRange_result:
  "fst (parseRange s) = None \<longleftrightarrow> snd (parseRange s) \<noteq> None"
  "snd (parseRange s) \<noteq> None \<longleftrightarrow>
     (length (Split s CHR ''-'') \<noteq> 2
      \<or> ParseIP (TrimSpace (Split s CHR ''-'' ! 0)) = None
      \<or> ParseIP (TrimSpace (Split s CHR ''-'' ! 1)) = None)"
  "snd (parseRange s) \<noteq> None \<longleftrightarrow> map_option fst (snd (parseRange s)) = Some ErrInvalidRange"
  by (auto simp: parseRange_def Let_def split: option.splits prod.splits)


section \<open>Properties of the scanner\<close>

lemma find_Some_mem: "find P xs = Some x \<Longrightarrow> x \<in> set xs \<and> P x"
  by (induction xs) (auto split: if_splits)

lemma vendors_keys:
  "(p, v) \<in> set vendors \<Longrightarrow> length p = 8"
  by (auto simp: vendors_def)

lemma HasPrefix_take: "HasPrefix s p \<longleftrightarrow> take (length p) s = p"
  by (induction s p rule: HasPrefix.induct) auto

text \<open>At most one prefix of the table matches a text, whatever the order of the visit.\<close>

lemma vendors_at_most_one:
  "(p, v) \<in> set vendors \<Longrightarrow> (p', v') \<in> set vendors \<Longrightarrow> HasPrefix mac p \<Longrightarrow> HasPrefix mac p'
     \<Longrightarrow> p = p' \<and> v = v'"
proof -
  assume a: "(p, v) \<in> set vendors" "(p', v') \<in> set vendors" "HasPrefix mac p" "HasPrefix mac p'"
  then have "p = take 8 mac" "p' = take 8 mac"
    using vendors_keys by (auto simp: HasPrefix_take)
  then have "p = p'" by simp
  moreover have "distinct (map fst vendors)"
    by (simp add: vendors_def)
  ultimately show ?thesis
    using a(1, 2) by (metis eq_key_imp_eq_value)
qed

lemma getVendorFromMAC_known:
  assumes "(p, v) \<in> set vendors" "HasPrefix mac p"
  shows "getVendorFromMAC mac = v"
proof -
  from assms have len: "\<not> length mac < 8"
    using vendors_keys [OF assms(1)] by (auto simp: HasPrefix_take)
  from assms obtain q where q: "find (\<lambda>(ouiPrefix, vendor). HasPrefix mac ouiPrefix) vendors = Some q"
    by (cases "find (\<lambda>(ouiPrefix, vendor). HasPrefix mac ouiPrefix) vendors")
       (auto simp: find_None_iff)
  then have "q \<in> set vendors" "HasPrefix mac (fst q)"
    using find_Some_mem [OF q] by (auto split: prod.splits)
  with assms have "snd q = v"
    using vendors_at_most_one [of p v "fst q" "snd q" mac] by simp
  with len q show ?thesis
    by (auto simp: getVendorFromMAC_def Let_def split: prod.splits)
qed

lemma getVendorFromMAC_unknown:
  "(\<forall>(p, v) \<in> set vendors. \<not> HasPrefix mac p) \<Longrightarrow> getVendorFromMAC mac = ''Unknown''"
proof -
  assume "\<forall>(p, v) \<in> set vendors. \<not> HasPrefix mac p"
  then have "find (\<lambda>(ouiPrefix, vendor). HasPrefix mac ouiPrefix) vendors = None"
    by (auto simp: find_None_iff)
  then show ?thesis
    by (simp add: getVendorFromMAC_def Let_def)
qed

lemma pingHost_cmd_timeout:
  "pingHost_cmd goos ip timeout = Some argv
     \<Longrightarrow> length argv = 6 \<and> argv ! 0 = ''ping'' \<and> argv ! 2 = ''1''
         \<and> argv ! 4 = Sprintf_0f_millis timeout \<and> argv ! 5 = ip"
  by (auto simp: pingHost_cmd_def split: if_splits)

lemma pingHost_supported:
  "pingHost_cmd (GOOS e) ip timeout = Some argv
     \<Longrightarrow> pingHost e ip timeout w
         = ((cmdRun e argv (clock w) = None, map_option RunError (cmdRun e argv (clock w))),
            perform e (RunCall argv) w)"
  by (simp add: pingHost_def Let_def)

lemma pingHost_unsupported:
  "pingHost_cmd (GOOS e) ip timeout = None
     \<Longrightarrow> pingHost e ip timeout w = ((False, Some (ErrUnsupportedOS (GOOS e))), w)"
  by (simp add: pingHost_def)

lemma pingHost_alive_iff_no_error:
  "fst (fst (pingHost e ip timeout w)) \<longleftrightarrow> snd (fst (pingHost e ip timeout w)) = None"
  by (simp add: pingHost_def Let_def split: option.splits)

text \<open>The fields of the record that \<^verbatim>\<open>scanHost\<close> returns which the probe decides.\<close>

lemma scanHost_probe_fields:
  "IP (fst (scanHost e ip timeout w)) = ip"
  "IsAlive (fst (scanHost e ip timeout w)) = fst (fst (pingHost e (String_IP ip) timeout w))"
  "Error (fst (scanHost e ip timeout w)) = snd (fst (pingHost e (String_IP ip) timeout w))"
  "Latency (fst (scanHost e ip timeout w))
     = clock (snd (pingHost e (String_IP ip) timeout w)) - clock w"
  by (simp_all add: scanHost_def Let_def split: prod.splits)

lemma scanHost_not_alive:
  "\<not> fst (fst (pingHost e (String_IP ip) timeout w))
     \<Longrightarrow> scanHost e ip timeout w
         = (\<lparr>IP = ip, Hostname = [], MAC = [], Vendor = [],
              Latency = clock (snd (pingHost e (String_IP ip) timeout w)) - clock w,
              IsAlive = False,
              Error = snd (fst (pingHost e (String_IP ip) timeout w))\<rparr>,
            snd (pingHost e (String_IP ip) timeout w))"
proof -
  assume dead: "\<not> fst (fst (pingHost e (String_IP ip) timeout w))"
  obtain a err w1 where p: "pingHost e (String_IP ip) timeout w = ((a, err), w1)"
    by (metis surj_pair)
  with dead have "\<not> a" by simp
  with p show ?thesis
    by (simp add: scanHost_def Let_def)
qed


section \<open>ScanNetwork: what holds in every run\<close>

lemma sum_list_map_update:
  fixes f :: "'a \<Rightarrow> 'b::comm_monoid_add"
  shows "i < length ws \<Longrightarrow> sum_list (map f (ws[i := v])) + f (ws ! i) = sum_list (map f ws) + f v"
proof (induction ws arbitrary: i)
  case Nil
  then show ?case by simp
next
  case (Cons a ws)
  show ?case
  proof (cases i)
    case 0
    then show ?thesis by (simp add: ac_simps)
  next
    case (Suc j)
    with Cons.prems have "j < length ws" by simp
    from Cons.IH [OF this] have "sum_list (map f (ws[j := v])) + f (ws ! j) = sum_list (map f ws) + f v" .
    then have "f a + (sum_list (map f (ws[j := v])) + f (ws ! j)) = f a + (sum_list (map f ws) + f v)" by simp
    with Suc show ?thesis by (simp add: ac_simps)
  qed
qed

lemma held_update:
  "i < length ws \<Longrightarrow> held (ws ! i) = {#} \<Longrightarrow> sum_list (map held (ws[i := v])) = sum_list (map held ws) + held v"
  using sum_list_map_update [of i ws held v] by simp

lemma held_update_same:
  "i < length ws \<Longrightarrow> held (ws ! i) = held v \<Longrightarrow> sum_list (map held (ws[i := v])) = sum_list (map held ws)"
  using sum_list_map_update [of i ws held v] by simp

lemma held_update_drop:
  "i < length ws \<Longrightarrow> held v = {#} \<Longrightarrow> sum_list (map held ws) = sum_list (map held (ws[i := v])) + held (ws ! i)"
  using sum_list_map_update [of i ws held v] by simp

lemma active_update_same:
  "i < length ws \<Longrightarrow> active (ws ! i) = active v \<Longrightarrow> sum_list (map active (ws[i := v])) = sum_list (map active ws)"
  using sum_list_map_update [of i ws active v] by simp

lemma active_update_exit:
  "i < length ws \<Longrightarrow> active (ws ! i) = 1 \<Longrightarrow> sum_list (map active (ws[i := Exited])) = sum_list (map active ws) - 1"
  using sum_list_map_update [of i ws active Exited] by simp

lemma weight_update:
  "i < length ws \<Longrightarrow> sum_list (map weight (ws[i := v])) + weight (ws ! i) = sum_list (map weight ws) + weight v"
  by (rule sum_list_map_update)

lemma Exited_update:
  "v \<noteq> Exited \<Longrightarrow> Exited \<in> set (ws[i := v]) \<Longrightarrow> Exited \<in> set ws"
  by (metis in_set_conv_nth length_list_update nth_list_update_eq nth_list_update_neq)

lemma active_pos:
  "i < length ws \<Longrightarrow> ws ! i \<noteq> Exited \<Longrightarrow> 0 < sum_list (map active ws)"
proof -
  assume a: "i < length ws" "ws ! i \<noteq> Exited"
  then have "active (ws ! i) = 1" by (cases "ws ! i") simp_all
  moreover from a have "active (ws ! i) \<in> set (map active ws)" by simp
  then have "active (ws ! i) \<le> sum_list (map active ws)" by (simp add: member_le_sum_list)
  ultimately show ?thesis by simp
qed

lemma invariant_init: "invariant ips (ScanNetwork_init ips maxWorkers w)"
proof -
  have "sum_list (map held (replicate n Receiving)) = {#}" for n by (induction n) simp_all
  moreover have "sum_list (map active (replicate n Receiving)) = n" for n by (induction n) simp_all
  ultimately show ?thesis by (simp add: invariant_def ScanNetwork_init_def pending_def)
qed

lemma steps_left_step:
  assumes "step e timeout cap s s'"
  shows "steps_left s' < steps_left s"
  using assms
proof cases
  case (feed ip rest)
  then show ?thesis by (simp add: steps_left_def pending_def)
next
  case close_jobs
  then show ?thesis by (simp add: steps_left_def pending_def)
next
  case (receive i ip rest)
  with weight_update [of i "workers s" "Scanning ip"] show ?thesis
    by (simp add: steps_left_def pending_def)
next
  case (scan i ip host w')
  with weight_update [of i "workers s" "Sending host"] show ?thesis
    by (simp add: steps_left_def pending_def)
next
  case (send i host)
  with weight_update [of i "workers s" Receiving] show ?thesis
    by (simp add: steps_left_def pending_def)
next
  case (leave i)
  with weight_update [of i "workers s" Exited] show ?thesis
    by (simp add: steps_left_def pending_def)
next
  case close_results
  then show ?thesis by (simp add: steps_left_def pending_def)
next
  case (collect host rest)
  then show ?thesis by (simp add: steps_left_def pending_def)
next
  case finish
  then show ?thesis by (simp add: steps_left_def pending_def)
qed

lemma invariant_step:
  assumes "invariant ips s" and "step e timeout cap s s'"
  shows "invariant ips s'"
  using assms(2)
proof cases
  case (feed ip rest)
  with assms(1) show ?thesis by (auto simp add: invariant_def pending_def)
next
  case close_jobs
  with assms(1) show ?thesis by (auto simp add: invariant_def pending_def)
next
  case (receive i ip rest)
  with assms(1) active_pos [of i "workers s"] have "\<not> results_closed s" "\<not> returned s"
    by (auto simp add: invariant_def)
  with receive assms(1) held_update [of i "workers s" "Scanning ip"]
    active_update_same [of i "workers s" "Scanning ip"]
    Exited_update [of "Scanning ip" "workers s" i]
  show ?thesis by (auto simp add: invariant_def pending_def)
next
  case (scan i ip host w')
  then have "IP host = ip" using scanHost_probe_fields(1) [of e ip timeout "world s"] by simp
  moreover from scan assms(1) active_pos [of i "workers s"]
  have "\<not> results_closed s" "\<not> returned s"
    by (auto simp add: invariant_def)
  ultimately show ?thesis using scan assms(1) held_update_same [of i "workers s" "Sending host"]
    active_update_same [of i "workers s" "Sending host"]
    Exited_update [of "Sending host" "workers s" i]
  by (auto simp add: invariant_def pending_def)
next
  case (send i host)
  with assms(1) active_pos [of i "workers s"] have "\<not> results_closed s" "\<not> returned s"
    by (auto simp add: invariant_def)
  with send assms(1) held_update_drop [of i "workers s" Receiving]
    active_update_same [of i "workers s" Receiving]
    Exited_update [of Receiving "workers s" i]
  show ?thesis by (auto simp add: invariant_def pending_def)
next
  case (leave i)
  with assms(1) active_pos [of i "workers s"] have "\<not> results_closed s" "\<not> returned s"
    by (auto simp add: invariant_def)
  with leave assms(1) held_update_same [of i "workers s" Exited]
    active_update_exit [of i "workers s"]
  show ?thesis by (auto simp add: invariant_def pending_def)
next
  case close_results
  with assms(1) show ?thesis by (auto simp add: invariant_def pending_def)
next
  case (collect host rest)
  with assms(1) show ?thesis by (auto simp add: invariant_def pending_def)
next
  case finish
  with assms(1) show ?thesis by (auto simp add: invariant_def pending_def)
qed


section \<open>Claims about the address conversions and the expansion\<close>

text \<open>
  Claim C10, as amended. For every four-byte IPv4 address \<open>ip\<close>, \<^verbatim>\<open>ipToUint32\<close> returns an
  integer \<open>n\<close> and \<^verbatim>\<open>uint32ToIP(n)\<close> is the same address in its sixteen-byte form: its
  \<^verbatim>\<open>To4()\<close> is \<open>ip\<close> and it is \<^verbatim>\<open>Equal\<close> to \<open>ip\<close>. For every 32-bit integer \<open>m\<close>,
  \<^verbatim>\<open>ipToUint32(uint32ToIP(m))\<close> is \<open>m\<close>.
\<close>

theorem uint32ToIP_ipToUint32_roundtrip:
  "(length ip = 4 \<longrightarrow>
      (\<exists>n. ipToUint32 ip = Some n \<and> length (uint32ToIP n) = 16
         \<and> To4 (uint32ToIP n) = Some ip \<and> Equal_IP (uint32ToIP n) ip))
   \<and> ipToUint32 (uint32ToIP m) = Some m"
proof -
  have "\<exists>n. ipToUint32 ip = Some n \<and> length (uint32ToIP n) = 16
          \<and> To4 (uint32ToIP n) = Some ip \<and> Equal_IP (uint32ToIP n) ip"
    if "length ip = 4"
  proof -
    from that obtain a b c d where ip: "ip = [a, b, c, d]"
      by (auto simp: length4_conv)
    let ?n = "push_bit 24 (ucast a) OR push_bit 16 (ucast b) OR push_bit 8 (ucast c) OR ucast d
      :: uint32"
    have "ipToUint32 ip = Some ?n"
      by (simp only: ip ipToUint32_bytes)
    moreover have "uint32ToIP ?n = IPv4 a b c d"
      by (rule uint32ToIP_bytes)
    moreover have "length (IPv4 a b c d) = 16"
      by (simp add: IPv4_def v4InV6Prefix_def)
    ultimately have "ipToUint32 ip = Some ?n \<and> length (uint32ToIP ?n) = 16
        \<and> To4 (uint32ToIP ?n) = Some ip \<and> Equal_IP (uint32ToIP ?n) ip"
      by (simp only: ip To4_IPv4 Equal_IP_IPv4 simp_thms)
    then show ?thesis
      by (rule exI)
  qed
  then show ?thesis
    by (simp add: ipToUint32_uint32ToIP)
qed

theorem uint32ToIP_ipToUint32_roundtrip_witness:
  "length [192, 168, 1, 1 :: byte] = 4
   \<and> ipToUint32 [192, 168, 1, 1] = Some 0xC0A80101
   \<and> To4 (uint32ToIP 0xC0A80101) = Some [192, 168, 1, 1]
   \<and> Equal_IP (uint32ToIP 0xC0A80101) [192, 168, 1, 1]
   \<and> ipToUint32 (uint32ToIP 0xC0A80101) = Some 0xC0A80101"
proof -
  have e: "ipToUint32 [192, 168, 1, 1] = Some 0xC0A80101"
    by code_simp
  show ?thesis
    using uint32ToIP_ipToUint32_roundtrip [of "[192, 168, 1, 1]" "0xC0A80101"] e by simp
qed

text \<open>
  Claim C10 as it is written fails: the address that comes back has sixteen bytes, the
  address that went in has four.
\<close>

theorem uint32ToIP_ipToUint32_not_identity:
  "ipToUint32 [192, 168, 1, 1] = Some 0xC0A80101
   \<and> uint32ToIP 0xC0A80101 \<noteq> [192, 168, 1, 1]
   \<and> length (uint32ToIP 0xC0A80101) = 16"
  by code_simp

text \<open>
  Claim C4 says that the expansion terminates for every range, also when the end is
  255.255.255.255. It does not: for the single address 255.255.255.255 and for the range
  0.0.0.0-255.255.255.255, which \<^verbatim>\<open>ParseIPRange\<close> accepts, \<^verbatim>\<open>GenerateIPs\<close> does not
  return.
\<close>

theorem GenerateIPs_diverges_at_max_address:
  "fst (ParseIPRange ''255.255.255.255'')
     = Some \<lparr>StartIP = IPv4 255 255 255 255, EndIP = IPv4 255 255 255 255\<rparr>
   \<and> GenerateIPs \<lparr>StartIP = IPv4 255 255 255 255, EndIP = IPv4 255 255 255 255\<rparr> = None
   \<and> fst (ParseIPRange ''0.0.0.0-255.255.255.255'')
     = Some \<lparr>StartIP = IPv4 0 0 0 0, EndIP = IPv4 255 255 255 255\<rparr>
   \<and> GenerateIPs \<lparr>StartIP = IPv4 0 0 0 0, EndIP = IPv4 255 255 255 255\<rparr> = None"
proof -
  have p1: "fst (ParseIPRange ''255.255.255.255'')
     = Some \<lparr>StartIP = IPv4 255 255 255 255, EndIP = IPv4 255 255 255 255\<rparr>"
    by code_simp
  have p2: "fst (ParseIPRange ''0.0.0.0-255.255.255.255'')
     = Some \<lparr>StartIP = IPv4 0 0 0 0, EndIP = IPv4 255 255 255 255\<rparr>"
    by code_simp
  have m: "ipToUint32 (IPv4 255 255 255 255) = Some (- 1)"
    by code_simp
  have z: "ipToUint32 (IPv4 0 0 0 0) = Some 0"
    by code_simp
  have g1: "GenerateIPs \<lparr>StartIP = IPv4 255 255 255 255, EndIP = IPv4 255 255 255 255\<rparr> = None"
    by (rule GenerateIPs_max_end [where start = "- 1"]) (simp_all add: m)
  have g2: "GenerateIPs \<lparr>StartIP = IPv4 0 0 0 0, EndIP = IPv4 255 255 255 255\<rparr> = None"
    by (rule GenerateIPs_max_end [where start = 0]) (simp_all add: m z)
  from p1 p2 g1 g2 show ?thesis
    by (simp only: simp_thms)
qed


text \<open>
  Claim C2 says that every valid CIDR text expands to \<open>2^(32-n)\<close> addresses. The texts
  0.0.0.0/0 and 255.255.255.0/24 are valid, their ranges end at 255.255.255.255, and
  \<^verbatim>\<open>GenerateIPs\<close> does not return on them.
\<close>

theorem GenerateIPs_diverges_on_CIDR:
  "fst (ParseIPRange ''0.0.0.0/0'')
     = Some \<lparr>StartIP = [0, 0, 0, 0], EndIP = [255, 255, 255, 255]\<rparr>
   \<and> GenerateIPs \<lparr>StartIP = [0, 0, 0, 0], EndIP = [255, 255, 255, 255]\<rparr> = None
   \<and> fst (ParseIPRange ''255.255.255.0/24'')
     = Some \<lparr>StartIP = [255, 255, 255, 0], EndIP = [255, 255, 255, 255]\<rparr>
   \<and> GenerateIPs \<lparr>StartIP = [255, 255, 255, 0], EndIP = [255, 255, 255, 255]\<rparr> = None"
proof -
  have p1: "fst (ParseIPRange ''0.0.0.0/0'')
     = Some \<lparr>StartIP = [0, 0, 0, 0], EndIP = [255, 255, 255, 255]\<rparr>"
    by code_simp
  have p2: "fst (ParseIPRange ''255.255.255.0/24'')
     = Some \<lparr>StartIP = [255, 255, 255, 0], EndIP = [255, 255, 255, 255]\<rparr>"
    by code_simp
  have m: "ipToUint32 [255, 255, 255, 255] = Some (- 1)"
    by code_simp
  have z: "ipToUint32 [0, 0, 0, 0] = Some 0"
    by code_simp
  have s: "ipToUint32 [255, 255, 255, 0] = Some 0xFFFFFF00"
    by code_simp
  have g1: "GenerateIPs \<lparr>StartIP = [0, 0, 0, 0], EndIP = [255, 255, 255, 255]\<rparr> = None"
    by (rule GenerateIPs_max_end [where start = 0]) (simp_all add: m z)
  have g2: "GenerateIPs \<lparr>StartIP = [255, 255, 255, 0], EndIP = [255, 255, 255, 255]\<rparr> = None"
    by (rule GenerateIPs_max_end [where start = "0xFFFFFF00"]) (simp_all add: m s)
  from p1 p2 g1 g2 show ?thesis
    by (simp only: simp_thms)
qed


section \<open>Claims about ParseIPRange\<close>

text \<open>
  Claim C5, as amended. \<^verbatim>\<open>ParseIPRange\<close> returns the range error exactly for a text
  without \<^verbatim>\<open>/\<close> and with \<^verbatim>\<open>-\<close> whose split at \<^verbatim>\<open>-\<close> does not have exactly two parts
  or has a side that \<^verbatim>\<open>net.ParseIP\<close> rejects once the white space around it is trimmed; it
  returns the address error exactly for a text with neither \<^verbatim>\<open>/\<close> nor \<^verbatim>\<open>-\<close> that
  \<^verbatim>\<open>net.ParseIP\<close> rejects, which for a text without a colon means that it is not a
  dot-decimal IPv4 address; it returns the CIDR error exactly for a text with \<^verbatim>\<open>/\<close> that
  \<^verbatim>\<open>net.ParseCIDR\<close> rejects; and it returns a range exactly when it returns no error.
\<close>

theorem ParseIPRange_error_conditions:
  "(map_option fst (snd (ParseIPRange s)) = Some ErrInvalidRange \<longleftrightarrow>
      \<not> Contains s ''/'' \<and> Contains s ''-''
      \<and> (length (Split s CHR ''-'') \<noteq> 2
         \<or> ParseIP (TrimSpace (Split s CHR ''-'' ! 0)) = None
         \<or> ParseIP (TrimSpace (Split s CHR ''-'' ! 1)) = None))
   \<and> (map_option fst (snd (ParseIPRange s)) = Some ErrInvalidIPAddress \<longleftrightarrow>
      \<not> Contains s ''/'' \<and> \<not> Contains s ''-'' \<and> ParseIP s = None)
   \<and> (\<not> Contains s '':'' \<longrightarrow> (ParseIP s = None \<longleftrightarrow> parseIPv4Fields s = None))
   \<and> (map_option fst (snd (ParseIPRange s)) = Some ErrInvalidCIDR \<longleftrightarrow>
      Contains s ''/'' \<and> ParseCIDR s = None)
   \<and> (fst (ParseIPRange s) = None \<longleftrightarrow> snd (ParseIPRange s) \<noteq> None)"
proof -
  have range_err: "map_option fst (snd (ParseIPRange s)) = Some ErrInvalidRange \<longleftrightarrow>
      \<not> Contains s ''/'' \<and> Contains s ''-''
      \<and> (length (Split s CHR ''-'') \<noteq> 2
         \<or> ParseIP (TrimSpace (Split s CHR ''-'' ! 0)) = None
         \<or> ParseIP (TrimSpace (Split s CHR ''-'' ! 1)) = None)"
  proof (cases "Contains s ''/''")
    case True
    then show ?thesis
      using parseCIDR_result(3) [of s]
      by (cases "snd (parseCIDR s)") (auto simp: ParseIPRange_def)
  next
    case slash: False
    show ?thesis
    proof (cases "Contains s ''-''")
      case True
      with slash show ?thesis
        using parseRange_result(2, 3) [of s] by (simp add: ParseIPRange_def)
    next
      case False
      with slash show ?thesis
        by (simp add: ParseIPRange_def split: option.splits)
    qed
  qed
  have addr_err: "map_option fst (snd (ParseIPRange s)) = Some ErrInvalidIPAddress \<longleftrightarrow>
      \<not> Contains s ''/'' \<and> \<not> Contains s ''-'' \<and> ParseIP s = None"
  proof (cases "Contains s ''/''")
    case True
    then show ?thesis
      using parseCIDR_result(3) [of s]
      by (cases "snd (parseCIDR s)") (auto simp: ParseIPRange_def)
  next
    case slash: False
    show ?thesis
    proof (cases "Contains s ''-''")
      case True
      with slash show ?thesis
        using parseRange_result(3) [of s]
        by (cases "snd (parseRange s)") (auto simp: ParseIPRange_def)
    next
      case False
      with slash show ?thesis
        by (simp add: ParseIPRange_def split: option.splits)
    qed
  qed
  have v4: "\<not> Contains s '':'' \<longrightarrow> (ParseIP s = None \<longleftrightarrow> parseIPv4Fields s = None)"
    by (simp add: Contains_char ParseIP_no_colon)
  have cidr_err: "map_option fst (snd (ParseIPRange s)) = Some ErrInvalidCIDR \<longleftrightarrow>
      Contains s ''/'' \<and> ParseCIDR s = None"
  proof (cases "Contains s ''/''")
    case True
    then show ?thesis
      using parseCIDR_result(2, 3) [of s] by (simp add: ParseIPRange_def)
  next
    case slash: False
    show ?thesis
    proof (cases "Contains s ''-''")
      case True
      with slash show ?thesis
        using parseRange_result(3) [of s]
        by (cases "snd (parseRange s)") (auto simp: ParseIPRange_def)
    next
      case False
      with slash show ?thesis
        by (simp add: ParseIPRange_def split: option.splits)
    qed
  qed
  have either: "fst (ParseIPRange s) = None \<longleftrightarrow> snd (ParseIPRange s) \<noteq> None"
    using parseCIDR_result(1) [of s] parseRange_result(1) [of s]
    by (simp add: ParseIPRange_def split: option.splits)
  from range_err addr_err v4 cidr_err either show ?thesis
    by (intro conjI)
qed

theorem ParseIPRange_error_conditions_witness:
  "\<not> Contains ''invalid.ip.address'' '':''
   \<and> parseIPv4Fields ''invalid.ip.address'' = None
   \<and> ParseIP ''invalid.ip.address'' = None
   \<and> ParseIPRange ''invalid.ip.address'' = (None, Some (ErrInvalidIPAddress, ''invalid.ip.address''))
   \<and> length (Split ''192.168.1.1-x'' CHR ''-'') = 2
   \<and> ParseIP (TrimSpace (Split ''192.168.1.1-x'' CHR ''-'' ! 1)) = None
   \<and> map_option fst (snd (ParseIPRange ''192.168.1.1-x'')) = Some ErrInvalidRange
   \<and> fst (ParseIPRange ''192.168.1.1-x'') = None"
proof -
  have 1: "\<not> Contains ''invalid.ip.address'' '':''"
    by code_simp
  have 2: "parseIPv4Fields ''invalid.ip.address'' = None"
    by code_simp
  have 3: "ParseIPRange ''invalid.ip.address''
      = (None, Some (ErrInvalidIPAddress, ''invalid.ip.address''))"
    by code_simp
  have 4: "length (Split ''192.168.1.1-x'' CHR ''-'') = 2"
    by code_simp
  have 5: "ParseIP (TrimSpace (Split ''192.168.1.1-x'' CHR ''-'' ! 1)) = None"
    by code_simp
  have 6: "\<not> Contains ''192.168.1.1-x'' ''/''" "Contains ''192.168.1.1-x'' ''-''"
    by code_simp+
  from 1 2 ParseIPRange_error_conditions [of "''invalid.ip.address''"]
  have a: "ParseIP ''invalid.ip.address'' = None"
    by blast
  from 5 6 ParseIPRange_error_conditions [of "''192.168.1.1-x''"]
  have b: "map_option fst (snd (ParseIPRange ''192.168.1.1-x'')) = Some ErrInvalidRange"
    by blast
  with ParseIPRange_error_conditions [of "''192.168.1.1-x''"]
  have c: "fst (ParseIPRange ''192.168.1.1-x'') = None"
    by (metis option.distinct(1) option.map_disc_iff)
  from 1 2 3 4 5 a b c show ?thesis
    by (intro conjI)
qed

text \<open>
  Claim C5 as it is written fails twice. The text \<^verbatim>\<open>::1\<close> has neither \<^verbatim>\<open>/\<close> nor \<^verbatim>\<open>-\<close>
  and is not a dot-decimal IPv4 address, yet it is parsed without error, as an IPv6
  address. The text \<^verbatim>\<open>1.1.1.1-2.2.2.2/8\<close> has a \<^verbatim>\<open>-\<close> and its right-hand side is no
  address, yet the error is the CIDR error, since a text with \<^verbatim>\<open>/\<close> is taken for a CIDR
  block first.
\<close>

theorem ParseIPRange_error_conditions_counterexample:
  "\<not> Contains ''::1'' ''/'' \<and> \<not> Contains ''::1'' ''-''
   \<and> parseIPv4Fields ''::1'' = None
   \<and> ParseIPRange ''::1''
       = (Some \<lparr>StartIP = replicate 15 0 @ [1], EndIP = replicate 15 0 @ [1]\<rparr>, None)
   \<and> Contains ''1.1.1.1-2.2.2.2/8'' ''-''
   \<and> length (Split ''1.1.1.1-2.2.2.2/8'' CHR ''-'') = 2
   \<and> ParseIP (TrimSpace (Split ''1.1.1.1-2.2.2.2/8'' CHR ''-'' ! 1)) = None
   \<and> ParseIPRange ''1.1.1.1-2.2.2.2/8'' = (None, Some (ErrInvalidCIDR, ''1.1.1.1-2.2.2.2/8''))"
  by code_simp


section \<open>Claims about the probe and the enrichment\<close>

text \<open>
  Claim C3 says that a hardware address that begins with a prefix of the table maps to
  the vendor whether the prefix is in upper or lower case and whether it is joined by
  colons or hyphens. The function finds the vendor only for the prefix as the table
  writes it, in upper case with colons; in lower case or with hyphens the answer is
  \<^verbatim>\<open>Unknown\<close>. (The empty text and a text with no prefix of the table give \<^verbatim>\<open>Unknown\<close>, as
  the claim says.)
\<close>

theorem getVendorFromMAC_case_and_separator:
  "getVendorFromMAC ''B8:27:EB:12:34:56'' = ''Raspberry Pi Foundation''
   \<and> getVendorFromMAC ''b8:27:eb:12:34:56'' = ''Unknown''
   \<and> getVendorFromMAC ''B8-27-EB-12-34-56'' = ''Unknown''
   \<and> getVendorFromMAC ''00-50-56-C0-00-08'' = ''Unknown''
   \<and> getVendorFromMAC ''00:11:22:33:44:55'' = ''Unknown''
   \<and> getVendorFromMAC [] = ''Unknown''"
  by code_simp

text \<open>
  Claim C6. Where the operating system is one the probe knows, so that a command is
  run: the host is recorded as reachable exactly when the command returned no error
  (the process exited with status 0); the error of the command, if any, is kept on the
  record as it is; and the latency is the time that passed on the clock around the
  call. Where the operating system is not known, the host is recorded as unreachable
  with the error for an unsupported system. \<^verbatim>\<open>scanHost\<close> returns a record in every case.
\<close>

theorem scanHost_reachable_iff_exit_success:
  "(case pingHost_cmd (GOOS e) (String_IP ip) timeout of
      Some argv \<Rightarrow>
        (IsAlive (fst (scanHost e ip timeout w)) \<longleftrightarrow> cmdRun e argv (clock w) = None)
        \<and> Error (fst (scanHost e ip timeout w)) = map_option RunError (cmdRun e argv (clock w))
        \<and> Latency (fst (scanHost e ip timeout w)) = elapsed e (RunCall argv) (clock w)
    | None \<Rightarrow>
        \<not> IsAlive (fst (scanHost e ip timeout w))
        \<and> Error (fst (scanHost e ip timeout w)) = Some (ErrUnsupportedOS (GOOS e)))
   \<and> (IsAlive (fst (scanHost e ip timeout w)) \<longleftrightarrow> Error (fst (scanHost e ip timeout w)) = None)
   \<and> IP (fst (scanHost e ip timeout w)) = ip"
proof (cases "pingHost_cmd (GOOS e) (String_IP ip) timeout")
  case None
  then show ?thesis
    by (simp add: scanHost_probe_fields pingHost_unsupported)
next
  case (Some argv)
  then show ?thesis
    by (auto simp: scanHost_probe_fields pingHost_supported perform_def)
qed

theorem scanHost_reachable_iff_exit_success_witness:
  "pingHost_cmd (GOOS example_env) (String_IP (IPv4 10 0 0 9)) 1000000000
     = Some [''ping'', ''-c'', ''1'', ''-W'', ''1000'', ''10.0.0.9'']
   \<and> cmdRun example_env [''ping'', ''-c'', ''1'', ''-W'', ''1000'', ''10.0.0.9''] 0
     = Some ''exit status 1''
   \<and> \<not> IsAlive (fst (scanHost example_env (IPv4 10 0 0 9) 1000000000 example_world))
   \<and> Error (fst (scanHost example_env (IPv4 10 0 0 9) 1000000000 example_world))
     = Some (RunError ''exit status 1'')
   \<and> Latency (fst (scanHost example_env (IPv4 10 0 0 9) 1000000000 example_world)) = 5000000
   \<and> pingHost_cmd (GOOS example_env) (String_IP (IPv4 127 0 0 1)) 1000000000
     = Some [''ping'', ''-c'', ''1'', ''-W'', ''1000'', ''127.0.0.1'']
   \<and> IsAlive (fst (scanHost example_env (IPv4 127 0 0 1) 1000000000 example_world))"
proof -
  have c1: "pingHost_cmd (GOOS example_env) (String_IP (IPv4 10 0 0 9)) 1000000000
     = Some [''ping'', ''-c'', ''1'', ''-W'', ''1000'', ''10.0.0.9'']"
    by code_simp
  have c2: "pingHost_cmd (GOOS example_env) (String_IP (IPv4 127 0 0 1)) 1000000000
     = Some [''ping'', ''-c'', ''1'', ''-W'', ''1000'', ''127.0.0.1'']"
    by code_simp
  have r1: "cmdRun example_env [''ping'', ''-c'', ''1'', ''-W'', ''1000'', ''10.0.0.9'']
      (clock example_world) = Some ''exit status 1''"
    by code_simp
  have r2: "cmdRun example_env [''ping'', ''-c'', ''1'', ''-W'', ''1000'', ''127.0.0.1'']
      (clock example_world) = None"
    by code_simp
  have t: "elapsed example_env (RunCall [''ping'', ''-c'', ''1'', ''-W'', ''1000'', ''10.0.0.9''])
      (clock example_world) = 5000000"
    by code_simp
  have k: "clock example_world = 0"
    by code_simp
  from scanHost_reachable_iff_exit_success
    [of example_env "IPv4 10 0 0 9" 1000000000 example_world]
    scanHost_reachable_iff_exit_success
    [of example_env "IPv4 127 0 0 1" 1000000000 example_world]
  show ?thesis
    by (simp add: c1 c2 r1 r2 t k [symmetric])
qed

text \<open>
  Claim C7 says that the timeout is handed to the command in the unit that the command
  of the platform expects, milliseconds on some platforms and seconds on others. The
  probe writes the number of milliseconds on every platform it knows: for a timeout of
  one second the argument after \<^verbatim>\<open>-W\<close> on Linux is \<^verbatim>\<open>1000\<close>, the same as after \<^verbatim>\<open>-w\<close>
  on Windows, while the \<^verbatim>\<open>ping\<close> of Linux reads the argument of \<^verbatim>\<open>-W\<close> in seconds. (One
  packet and one attempt are asked for on every platform: \<^verbatim>\<open>-n 1\<close> and \<^verbatim>\<open>-c 1\<close>.)
\<close>

theorem pingHost_cmd_milliseconds_everywhere:
  "pingHost_cmd ''linux'' ''192.168.1.1'' 1000000000
     = Some [''ping'', ''-c'', ''1'', ''-W'', ''1000'', ''192.168.1.1'']
   \<and> pingHost_cmd ''darwin'' ''192.168.1.1'' 1000000000
     = Some [''ping'', ''-c'', ''1'', ''-W'', ''1000'', ''192.168.1.1'']
   \<and> pingHost_cmd ''windows'' ''192.168.1.1'' 1000000000
     = Some [''ping'', ''-n'', ''1'', ''-w'', ''1000'', ''192.168.1.1'']
   \<and> pingHost_cmd ''linux'' ''192.168.1.1'' 500000000
     = Some [''ping'', ''-c'', ''1'', ''-W'', ''500'', ''192.168.1.1'']"
  by code_simp

text \<open>
  Claim C9. When the probe reports the host unreachable, the record that \<^verbatim>\<open>scanHost\<close>
  returns has an empty host name, an empty hardware address and an empty vendor, and
  the only call to the outside that was made is the probe's own command (none where the
  operating system is not known): no name was looked up and the neighbour table was not
  read.
\<close>

theorem scanHost_unreachable_not_enriched:
  "\<not> IsAlive (fst (scanHost e ip timeout w))
   \<Longrightarrow> Hostname (fst (scanHost e ip timeout w)) = []
     \<and> MAC (fst (scanHost e ip timeout w)) = []
     \<and> Vendor (fst (scanHost e ip timeout w)) = []
     \<and> calls (snd (scanHost e ip timeout w))
         = calls w @ (case pingHost_cmd (GOOS e) (String_IP ip) timeout of
                        None \<Rightarrow> []
                      | Some argv \<Rightarrow> [RunCall argv])"
proof -
  assume "\<not> IsAlive (fst (scanHost e ip timeout w))"
  then have dead: "\<not> fst (fst (pingHost e (String_IP ip) timeout w))"
    by (simp add: scanHost_probe_fields)
  have "calls (snd (pingHost e (String_IP ip) timeout w))
      = calls w @ (case pingHost_cmd (GOOS e) (String_IP ip) timeout of
                     None \<Rightarrow> []
                   | Some argv \<Rightarrow> [RunCall argv])"
    by (simp add: pingHost_def perform_def Let_def split: option.splits)
  with dead show ?thesis
    by (simp add: scanHost_not_alive)
qed

theorem scanHost_unreachable_not_enriched_witness:
  "\<not> IsAlive (fst (scanHost example_env (IPv4 10 0 0 9) 1000000000 example_world))
   \<and> Hostname (fst (scanHost example_env (IPv4 10 0 0 9) 1000000000 example_world)) = []
   \<and> MAC (fst (scanHost example_env (IPv4 10 0 0 9) 1000000000 example_world)) = []
   \<and> Vendor (fst (scanHost example_env (IPv4 10 0 0 9) 1000000000 example_world)) = []
   \<and> calls (snd (scanHost example_env (IPv4 10 0 0 9) 1000000000 example_world))
       = [RunCall [''ping'', ''-c'', ''1'', ''-W'', ''1000'', ''10.0.0.9'']]"
proof -
  have d: "\<not> IsAlive (fst (scanHost example_env (IPv4 10 0 0 9) 1000000000 example_world))"
    by code_simp
  have c: "pingHost_cmd (GOOS example_env) (String_IP (IPv4 10 0 0 9)) 1000000000
     = Some [''ping'', ''-c'', ''1'', ''-W'', ''1000'', ''10.0.0.9'']"
    by code_simp
  have k: "calls example_world = []"
    by code_simp
  from scanHost_unreachable_not_enriched [OF d] d show ?thesis
    by (simp add: c k)
qed


end
